theory Spec2Isabelle
  imports Main "HOL-Library.AList" "HOL-Library.Sublist"
begin

section \<open>JSON values\<close>

text \<open>
  The proxy handles parsed JSON throughout. A value is modelled as the tagged tree
  below; an object is the list of its own enumerable properties in enumeration order
  (keys pairwise distinct, none of them \<open>__proto__\<close>, which the body parser of
  Fastify refuses), a number is an integer, and a string is the list of its code units,
  each below 256: the character \<open>CHR n\<close> stands for the code unit \<open>n\<close>. A
  property that is absent (JavaScript \<open>undefined\<close>) is \<open>None\<close> of \<open>json option\<close>.
\<close>

datatype json = JNull | JBool bool | JNum int | JStr string | JArr "json list"
  | JObj "(string \<times> json) list"

definition digit_char :: "nat \<Rightarrow> char" where
  "digit_char d = char_of (48 + d)"

text \<open>The decimal numeral of an array position, as \<open>for ... in\<close> over an array yields it.\<close>

fun decimal :: "nat \<Rightarrow> string" where
  "decimal n = (if n < 10 then [digit_char n] else decimal (n div 10) @ [digit_char (n mod 10)])"

declare decimal.simps [simp del]

text \<open>\<open>typeof v === 'object'\<close> holds of objects, arrays and \<open>null\<close>.\<close>

definition typeof_object :: "json \<Rightarrow> bool" where
  "typeof_object v = (case v of JNull \<Rightarrow> True | JArr _ \<Rightarrow> True | JObj _ \<Rightarrow> True | _ \<Rightarrow> False)"

definition isArray :: "json \<Rightarrow> bool" where
  "isArray v = (case v of JArr _ \<Rightarrow> True | _ \<Rightarrow> False)"

section \<open>SchemaSanitizer\<close>

text \<open>
  \<open>removeUriFormat\<close> of \<open>src/index.ts\<close>. The early exit on a falsy or non-object
  schema returns the value itself; an object with \<open>type: 'string'\<close> and
  \<open>format: 'uri'\<close> is returned as the rest of the destructuring
  \<open>{ format, ...rest }\<close>, with no further traversal; an array is mapped; any other
  object is rebuilt key by key. \<open>removeUriFormat_each\<close> is \<open>Array.map\<close> with the
  function, \<open>removeUriFormat_keys\<close> the loop \<open>for (const key in schema)\<close>, and
  \<open>removeUriFormat_props\<close> the inner loop \<open>for (const propKey in schema[key])\<close>.
  Under \<open>properties\<close> that inner loop runs on whatever has \<open>typeof\<close> object: an
  object, an array (whose keys are its positions) or \<open>null\<close> (no key).
\<close>

fun removeUriFormat :: "json \<Rightarrow> json"
  and removeUriFormat_each :: "json list \<Rightarrow> json list"
  and removeUriFormat_props :: "(string \<times> json) list \<Rightarrow> (string \<times> json) list"
  and removeUriFormat_keys :: "(string \<times> json) list \<Rightarrow> (string \<times> json) list"
where
  "removeUriFormat (JObj kvs) =
     (if map_of kvs ''type'' = Some (JStr ''string'') \<and> map_of kvs ''format'' = Some (JStr ''uri'')
      then JObj (filter (\<lambda>kv. fst kv \<noteq> ''format'') kvs)
      else JObj (removeUriFormat_keys kvs))"
| "removeUriFormat (JArr xs) = JArr (removeUriFormat_each xs)"
| "removeUriFormat JNull = JNull"
| "removeUriFormat (JBool b) = JBool b"
| "removeUriFormat (JNum n) = JNum n"
| "removeUriFormat (JStr s) = JStr s"
| "removeUriFormat_each [] = []"
| "removeUriFormat_each (x # xs) = removeUriFormat x # removeUriFormat_each xs"
| "removeUriFormat_props [] = []"
| "removeUriFormat_props ((propKey, pv) # ps) =
     (propKey, removeUriFormat pv) # removeUriFormat_props ps"
| "removeUriFormat_keys [] = []"
| "removeUriFormat_keys ((key, v) # kvs) =
     (if key = ''properties'' \<and> typeof_object v then
        (key, case v of
                JObj ps \<Rightarrow> JObj (removeUriFormat_props ps)
              | JArr xs \<Rightarrow> JObj (zip (map decimal [0..<length xs]) (removeUriFormat_each xs))
              | _ \<Rightarrow> JObj [])
      else if key = ''items'' \<and> typeof_object v then (key, removeUriFormat v)
      else if key = ''additionalProperties'' \<and> typeof_object v then (key, removeUriFormat v)
      else if key \<in> set [''anyOf'', ''allOf'', ''oneOf''] \<and> isArray v then
        (key, case v of JArr xs \<Rightarrow> JArr (removeUriFormat_each xs) | _ \<Rightarrow> v)
      else (key, removeUriFormat v)) # removeUriFormat_keys kvs"

section \<open>Strings\<close>

text \<open>
  The white space of \<open>String.prototype.trim\<close> and of the class \<open>\s\<close> of a
  regular expression, among the code units below 256: tab, line feed, vertical tab,
  form feed, carriage return, space and the no-break space \<open>U+00A0\<close>.
\<close>

definition is_space :: "char \<Rightarrow> bool" where
  "is_space c =
     (c \<in> set [CHR 0x09, CHR 0x0A, CHR 0x0B, CHR 0x0C, CHR 0x0D, CHR '' '', CHR 0xA0])"

definition trim :: "string \<Rightarrow> string" where
  "trim s = rev (dropWhile is_space (rev (dropWhile is_space s)))"

text \<open>
  \<open>s.split(sep)\<close> for a separator of one character: the pieces between the
  separators, empty pieces included, so the empty string has one piece.
\<close>

fun split :: "char \<Rightarrow> string \<Rightarrow> string list" where
  "split sep [] = [[]]"
| "split sep (c # cs) =
     (if c = sep then [] # split sep cs
      else (case split sep cs of [] \<Rightarrow> [[c]] | piece # pieces \<Rightarrow> (c # piece) # pieces))"

section \<open>Backend responses and stream frames\<close>

text \<open>
  The records below hold the fields that \<open>index.ts\<close> reads of the types it imports
  from \<open>types.ts\<close>. An optional or nullable field is an \<open>option\<close>. The same response type serves the complete response (\<open>message\<close> of a
  choice) and a stream frame (\<open>delta\<close> of a choice).
\<close>

record usage_counts =
  prompt_tokens :: int
  completion_tokens :: int

text \<open>
  The \<open>index\<close> of a tool-call delta is read as \<open>toolCall.index || 0\<close>. The field
  may be absent or hold a falsy JSON value (\<open>null\<close>, \<open>false\<close>, the empty string,
  the number zero); the truthy values of the backend protocol are the positive
  integers. The number is the key of its entry in the accumulator object; the order in
  which the keys are enumerated is that of \<open>accumulator_keys\<close> below.
\<close>

datatype index_field = IndexAbsent | IndexNull | IndexFalse | IndexEmptyString | IndexNumber nat

record tool_function =
  fn_name :: "string option"
  fn_arguments :: "string option"

record tool_call =
  tc_index :: index_field
  tc_id :: "string option"
  tc_function :: "tool_function option"

record stream_delta =
  d_tool_calls :: "tool_call list option"
  d_content :: "string option"
  d_reasoning :: "string option"

record completion_message =
  m_content :: "string option"
  m_tool_calls :: "tool_call list option"

record openai_choice =
  ch_message :: "completion_message option"
  ch_delta :: "stream_delta option"
  ch_finish_reason :: "string option"

record openai_response =
  r_id :: "string option"
  r_error :: "string option"
  r_choices :: "openai_choice list option"
  r_usage :: "usage_counts option"

text \<open>
  What \<open>JSON.parse\<close> makes of a text: it throws, or yields \<open>null\<close>, or a value
  whose fields are read as a response. The parser itself is a parameter of the model.
\<close>

datatype parse_result = ParseFailure | ParsedNull | Parsed openai_response

text \<open>What the handler's \<open>catch\<close> receives.\<close>

datatype failure = SyntaxError | TypeError | BackendError string | NoChoices | NoReader

section \<open>Output events\<close>

datatype stop_reason = ToolUse | EndTurn | MaxTokens

datatype content_block = TextBlock | ToolUseBlock "string option" "string option"

datatype block_delta = TextDelta string | ThinkingDelta string | InputJsonDelta string

text \<open>
  One value per call of \<open>sendSSE\<close>. \<open>MessageStart\<close> stands for the event with the
  freshly drawn message id, the model name, no content and zero usage;
  \<open>MessageDelta\<close> carries the stop reason and the \<open>output_tokens\<close> of its usage.
\<close>

datatype sse_event =
    MessageStart
  | Ping
  | ContentBlockStart nat content_block
  | ContentBlockDelta nat block_delta
  | ContentBlockStop nat
  | MessageDelta stop_reason int
  | MessageStop

section \<open>StreamingReencoder\<close>

text \<open>
  The state of one streaming request: the flag \<open>isSucceeded\<close> of the closure
  \<open>sendSuccessMessage\<close>, the fields of \<open>streamingState\<close> that are read (its
  \<open>messageId\<close> never is), and the client's channel \<open>reply.raw\<close>: the events
  written so far and whether \<open>end()\<close> was called. \<open>toolCallAccumulators\<close> lists
  the keys in the order of their creation.
\<close>

record streaming =
  isSucceeded :: bool
  accumulatedContent :: string
  accumulatedReasoning :: string
  usage :: "usage_counts option"
  textBlockStarted :: bool
  encounteredToolCall :: bool
  toolCallAccumulators :: "(nat \<times> string) list"
  sent :: "sse_event list"
  ended :: bool

definition streamingState :: streaming where
  "streamingState = \<lparr> isSucceeded = False, accumulatedContent = [], accumulatedReasoning = [],
     usage = None, textBlockStarted = False, encounteredToolCall = False,
     toolCallAccumulators = [], sent = [], ended = False \<rparr>"

text \<open>How control leaves a piece of the loop body.\<close>

datatype signal = Continue | Returned | Thrown failure

definition sendSSE :: "sse_event \<Rightarrow> streaming \<Rightarrow> streaming" where
  "sendSSE event s = s\<lparr> sent := sent s @ [event] \<rparr>"

definition sendSuccessMessage :: "streaming \<Rightarrow> streaming" where
  "sendSuccessMessage s =
     (if isSucceeded s then s
      else sendSSE Ping (sendSSE MessageStart (s\<lparr> isSucceeded := True \<rparr>)))"

text \<open>
  \<open>for (const idx in toolCallAccumulators)\<close>: the keys that are array indices,
  those below \<open>2^32 - 1\<close>, come first in ascending numeric order, the others after
  them in the order of their creation. \<open>parseInt(idx, 10)\<close> gives the number back
  for every key that is a safe integer (below \<open>2^53\<close>), which is what the properties
  of finalization below require of the indices of a stream.
\<close>

definition accumulator_keys :: "(nat \<times> string) list \<Rightarrow> nat list" where
  "accumulator_keys acc =
     sort (filter (\<lambda>k. k < 4294967295) (map fst acc))
       @ filter (\<lambda>k. \<not> k < 4294967295) (map fst acc)"

text \<open>The branch of the sentinel line \<open>[DONE]\<close>.\<close>

definition output_tokens_estimate :: "streaming \<Rightarrow> int" where
  "output_tokens_estimate s =
     int (length (split CHR '' '' (accumulatedContent s))
        + length (split CHR '' '' (accumulatedReasoning s)))"

definition finalize :: "streaming \<Rightarrow> streaming" where
  "finalize s =
     (let s1 = (if encounteredToolCall s
                then foldl (\<lambda>t idx. sendSSE (ContentBlockStop idx) t) s
                       (accumulator_keys (toolCallAccumulators s))
                else if textBlockStarted s then sendSSE (ContentBlockStop 0) s
                else s);
          s2 = sendSSE (MessageDelta (if encounteredToolCall s then ToolUse else EndTurn)
                 (case usage s of Some u \<Rightarrow> completion_tokens u
                  | None \<Rightarrow> output_tokens_estimate s)) s1;
          s3 = sendSSE MessageStop s2
      in s3\<lparr> ended := True \<rparr>)"

text \<open>\<open>toolCall.index || 0\<close>.\<close>

fun index_or_zero :: "index_field \<Rightarrow> nat" where
  "index_or_zero (IndexNumber n) = n"
| "index_or_zero _ = 0"

text \<open>\<open>x || ""\<close> on an optional string: the empty string is falsy as well.\<close>

definition or_empty :: "string option \<Rightarrow> string" where
  "or_empty x = (case x of Some a \<Rightarrow> a | None \<Rightarrow> [])"

definition truthy_string :: "string option \<Rightarrow> bool" where
  "truthy_string x = (case x of Some a \<Rightarrow> a \<noteq> [] | None \<Rightarrow> False)"

text \<open>
  The body of \<open>for (const toolCall of delta.tool_calls)\<close>. Reading
  \<open>toolCall.function.name\<close> or \<open>toolCall.function.arguments\<close> of a tool call
  without \<open>function\<close> throws; on a new index that happens after the accumulator entry
  was created and before the event is sent.
\<close>

definition toolCallDelta :: "tool_call \<Rightarrow> streaming \<Rightarrow> signal \<times> streaming" where
  "toolCallDelta toolCall s =
     (let s1 = s\<lparr> encounteredToolCall := True \<rparr>;
          idx = index_or_zero (tc_index toolCall);
          fresh = (map_of (toolCallAccumulators s1) idx = None);
          s2 = (if fresh
                then s1\<lparr> toolCallAccumulators := toolCallAccumulators s1 @ [(idx, [])] \<rparr>
                else s1)
      in case tc_function toolCall of
           None \<Rightarrow> (Thrown TypeError, s2)
         | Some f \<Rightarrow>
            (let s3 = (if fresh
                       then sendSSE (ContentBlockStart idx
                              (ToolUseBlock (tc_id toolCall) (fn_name f))) s2
                       else s2);
                 newArgs = or_empty (fn_arguments f);
                 oldArgs = (case map_of (toolCallAccumulators s3) idx of
                              Some a \<Rightarrow> a | None \<Rightarrow> [])
             in if length newArgs > length oldArgs
                then (Continue,
                      (sendSSE (ContentBlockDelta idx
                          (InputJsonDelta (drop (length oldArgs) newArgs))) s3)
                        \<lparr> toolCallAccumulators :=
                            AList.update idx newArgs (toolCallAccumulators s3) \<rparr>)
                else (Continue, s3)))"

fun toolCallsLoop :: "tool_call list \<Rightarrow> streaming \<Rightarrow> signal \<times> streaming" where
  "toolCallsLoop [] s = (Continue, s)"
| "toolCallsLoop (toolCall # rest) s =
     (case toolCallDelta toolCall s of
        (Continue, s') \<Rightarrow> toolCallsLoop rest s'
      | stopped \<Rightarrow> stopped)"

definition openTextBlock :: "streaming \<Rightarrow> streaming" where
  "openTextBlock s =
     (if \<not> textBlockStarted s
      then sendSSE (ContentBlockStart 0 TextBlock) (s\<lparr> textBlockStarted := True \<rparr>)
      else s)"

text \<open>The three-way branch on \<open>delta\<close>; an absent delta takes none of them.\<close>

definition handleDelta :: "stream_delta option \<Rightarrow> streaming \<Rightarrow> signal \<times> streaming" where
  "handleDelta delta s =
     (case delta of
        None \<Rightarrow> (Continue, s)
      | Some d \<Rightarrow>
         (case d_tool_calls d of
            Some toolCalls \<Rightarrow> toolCallsLoop toolCalls s
          | None \<Rightarrow>
             if truthy_string (d_content d) then
               (let s1 = openTextBlock s;
                    s2 = s1\<lparr> accumulatedContent := accumulatedContent s1 @ or_empty (d_content d) \<rparr>
                in (Continue, sendSSE (ContentBlockDelta 0 (TextDelta (or_empty (d_content d)))) s2))
             else if truthy_string (d_reasoning d) then
               (let s1 = openTextBlock s;
                    s2 = s1\<lparr> accumulatedReasoning :=
                              accumulatedReasoning s1 @ or_empty (d_reasoning d) \<rparr>
                in (Continue,
                    sendSSE (ContentBlockDelta 0 (ThinkingDelta (or_empty (d_reasoning d)))) s2))
             else (Continue, s)))"

text \<open>\<open>parsed.choices[0]?.delta\<close>, for a \<open>choices\<close> that is there.\<close>

definition first_delta :: "openai_choice list \<Rightarrow> stream_delta option" where
  "first_delta choices = (case choices of [] \<Rightarrow> None | c # _ \<Rightarrow> ch_delta c)"

text \<open>A data line other than the sentinel, from \<open>JSON.parse\<close> on.\<close>

definition handleFrame :: "parse_result \<Rightarrow> streaming \<Rightarrow> signal \<times> streaming" where
  "handleFrame p s =
     (case p of
        ParseFailure \<Rightarrow> (Thrown SyntaxError, s)
      | ParsedNull \<Rightarrow> (Thrown TypeError, s)
      | Parsed parsed \<Rightarrow>
         (case r_error parsed of
            Some message \<Rightarrow> (Thrown (BackendError message), s)
          | None \<Rightarrow>
             (let s1 = sendSuccessMessage s;
                  s2 = (case r_usage parsed of Some u \<Rightarrow> s1\<lparr> usage := Some u \<rparr> | None \<Rightarrow> s1)
              in case r_choices parsed of
                   None \<Rightarrow> (Thrown TypeError, s2)
                 | Some choices \<Rightarrow> handleDelta (first_delta choices) s2)))"

text \<open>
  What a line of a chunk is: skipped (blank after trimming, or not starting with
  \<open>data:\<close>), the sentinel, or a payload handed to \<open>JSON.parse\<close>. \<open>dataStr\<close> is
  \<open>trimmed.replace(/^data:\s*/, '')\<close> of a line that is not skipped.
\<close>

definition dataStr :: "string \<Rightarrow> string option" where
  "dataStr line =
     (let trimmed = trim line
      in if trimmed = [] \<or> \<not> prefix ''data:'' trimmed then None
         else Some (dropWhile is_space (drop 5 trimmed)))"

datatype line_kind = Skipped | Sentinel | Payload parse_result

definition classify :: "(string \<Rightarrow> parse_result) \<Rightarrow> string \<Rightarrow> line_kind" where
  "classify parse line =
     (case dataStr line of
        None \<Rightarrow> Skipped
      | Some d \<Rightarrow> if d = ''[DONE]'' then Sentinel else Payload (parse d))"

definition handleLine :: "line_kind \<Rightarrow> streaming \<Rightarrow> signal \<times> streaming" where
  "handleLine k s =
     (case k of
        Skipped \<Rightarrow> (Continue, s)
      | Sentinel \<Rightarrow> (Returned, finalize s)
      | Payload p \<Rightarrow> handleFrame p s)"

text \<open>\<open>for (const line of lines)\<close>, over lines already classified.\<close>

fun handleLines :: "line_kind list \<Rightarrow> streaming \<Rightarrow> signal \<times> streaming" where
  "handleLines [] s = (Continue, s)"
| "handleLines (k # ks) s =
     (case handleLine k s of
        (Continue, s') \<Rightarrow> handleLines ks s'
      | stopped \<Rightarrow> stopped)"

definition chunk_lines :: "(string \<Rightarrow> parse_result) \<Rightarrow> string \<Rightarrow> line_kind list" where
  "chunk_lines parse chunk = map (classify parse) (split CHR 0x0A chunk)"

text \<open>
  \<open>while (!done)\<close>: one chunk per successful \<open>reader.read()\<close>; the list of chunks
  is what the backend delivers before it closes the body. \<open>Continue\<close> out of it means
  the end of the body was reached.
\<close>

fun readLoop :: "(string \<Rightarrow> parse_result) \<Rightarrow> string list \<Rightarrow> streaming \<Rightarrow> signal \<times> streaming" where
  "readLoop parse [] s = (Continue, s)"
| "readLoop parse (chunk # chunks) s =
     (case handleLines (chunk_lines parse chunk) s of
        (Continue, s') \<Rightarrow> readLoop parse chunks s'
      | stopped \<Rightarrow> stopped)"

text \<open>
  The streaming path from the state's creation on: after the loop the channel is ended
  and the handler returns, as it does on the sentinel.
\<close>

definition streamResponse :: "(string \<Rightarrow> parse_result) \<Rightarrow> string list \<Rightarrow> signal \<times> streaming" where
  "streamResponse parse chunks =
     (case readLoop parse chunks streamingState of
        (Continue, s) \<Rightarrow> (Returned, s\<lparr> ended := True \<rparr>)
      | stopped \<Rightarrow> stopped)"

section \<open>JavaScript coercions\<close>

text \<open>Truthiness, \<open>a || b\<close> on optional values, and a property read on a value.\<close>

definition truthy :: "json \<Rightarrow> bool" where
  "truthy v = (case v of JNull \<Rightarrow> False | JBool b \<Rightarrow> b | JNum n \<Rightarrow> n \<noteq> 0
                | JStr s \<Rightarrow> s \<noteq> [] | JArr _ \<Rightarrow> True | JObj _ \<Rightarrow> True)"

definition js_or :: "json option \<Rightarrow> json option \<Rightarrow> json option" where
  "js_or a b = (case a of Some v \<Rightarrow> if truthy v then a else b | None \<Rightarrow> b)"

text \<open>
  \<open>v.k\<close> for the keys the proxy reads, none of which a string, a number, a boolean
  or an array has; on \<open>null\<close> the read throws, which the callers check first.
\<close>

definition field :: "json \<Rightarrow> string \<Rightarrow> json option" where
  "field v k = (case v of JObj kvs \<Rightarrow> map_of kvs k | _ \<Rightarrow> None)"

fun join :: "string \<Rightarrow> string list \<Rightarrow> string" where
  "join sep [] = []"
| "join sep [x] = x"
| "join sep (x # y # rest) = x @ sep @ join sep (y # rest)"

text \<open>
  The string of a value as \<open>Array.prototype.join\<close> takes it: \<open>null\<close> gives the
  empty string there, an array joins its elements with commas. A number is printed
  with all its digits, as JavaScript prints an integer of magnitude below \<open>10^21\<close>.
\<close>

fun toString :: "json \<Rightarrow> string"
  and toString_elements :: "json list \<Rightarrow> string list"
where
  "toString JNull = []"
| "toString (JBool b) = (if b then ''true'' else ''false'')"
| "toString (JNum n) = (if n < 0 then CHR ''-'' # decimal (nat (- n)) else decimal (nat n))"
| "toString (JStr s) = s"
| "toString (JArr xs) = join '','' (toString_elements xs)"
| "toString (JObj kvs) = ''[object Object]''"
| "toString_elements [] = []"
| "toString_elements (x # xs) = toString x # toString_elements xs"

section \<open>RequestTranslator\<close>

text \<open>
  \<open>normalizeContent\<close>. On an array the callback reads \<open>item.text\<close>, which throws
  on a \<open>null\<close> item.
\<close>

definition normalizeContent :: "json \<Rightarrow> failure + string option" where
  "normalizeContent content =
     (case content of
        JStr s \<Rightarrow> Inr (Some s)
      | JArr items \<Rightarrow>
          if JNull \<in> set items then Inl TypeError
          else (let texts = map (\<lambda>item. js_or (js_or (field item ''text'') (field item ''content''))
                                    (Some (JStr []))) items;
                    kept = filter truthy (map (\<lambda>t. case t of Some v \<Rightarrow> v | None \<Rightarrow> JNull) texts);
                    joined = join '' '' (map toString kept)
                in Inr (if joined = [] then None else Some joined))
      | _ \<Rightarrow> Inr None)"

record outbound_tool_call =
  otc_id :: "json option"
  otc_name :: "json option"
  otc_parameters :: "json option"
  otc_arguments :: "string option"

record openai_message =
  om_role :: string
  om_content :: "json option"
  om_tool_calls :: "outbound_tool_call list option"
  om_tool_call_id :: "json option"

record anthropic_message =
  am_role :: string
  am_content :: json

record anthropic_tool =
  at_name :: string
  at_description :: "json option"
  at_input_schema :: "json option"

record openai_tool =
  ot_name :: string
  ot_description :: "json option"
  ot_parameters :: "json option"

record anthropic_request =
  ar_system :: "json option"
  ar_messages :: "anthropic_message list"
  ar_tools :: "anthropic_tool list option"
  ar_max_tokens :: "json option"
  ar_temperature :: "json option"
  ar_stream :: "json option"
  ar_thinking :: "json option"

record openai_request =
  oq_model :: string
  oq_messages :: "openai_message list"
  oq_max_tokens :: "json option"
  oq_temperature :: json
  oq_stream :: bool
  oq_tools :: "openai_tool list option"

text \<open>
  The configuration read by the handler. \<open>EXCLUDED_TOOLS\<close> is a constant of
  \<open>types.ts\<close>, taken here as a parameter.
\<close>

record proxy_config =
  reasoning_model :: string
  completion_model :: string
  excluded_tools :: "string list"

text \<open>First failure wins, as the first exception ends the handler's \<open>try\<close> block.\<close>

fun collect :: "(failure + 'a list) list \<Rightarrow> failure + 'a list" where
  "collect [] = Inr []"
| "collect (r # rs) =
     (case r of
        Inl f \<Rightarrow> Inl f
      | Inr xs \<Rightarrow> (case collect rs of Inl f \<Rightarrow> Inl f | Inr ys \<Rightarrow> Inr (xs @ ys)))"

text \<open>The callback of \<open>payload.system.forEach\<close>: the messages it pushes.\<close>

definition systemMessage :: "json \<Rightarrow> failure + openai_message list" where
  "systemMessage sysMsg =
     (if sysMsg = JNull then Inl TypeError
      else case normalizeContent
                  (case js_or (js_or (field sysMsg ''text'') (field sysMsg ''content''))
                          (Some (JStr [])) of Some v \<Rightarrow> v | None \<Rightarrow> JNull) of
             Inl f \<Rightarrow> Inl f
           | Inr normalized \<Rightarrow>
               Inr (case normalized of
                      Some s \<Rightarrow> if s \<noteq> [] then
                          [\<lparr> om_role = ''system'', om_content = Some (JStr s),
                             om_tool_calls = None, om_tool_call_id = None \<rparr>] else []
                    | None \<Rightarrow> []))"

definition has_type :: "string \<Rightarrow> json \<Rightarrow> bool" where
  "has_type t item = (field item ''type'' = Some (JStr t))"

definition toolCallOf :: "(json \<Rightarrow> string) \<Rightarrow> json \<Rightarrow> outbound_tool_call" where
  "toolCallOf stringify toolCall =
     \<lparr> otc_id = field toolCall ''id'', otc_name = field toolCall ''name'',
       otc_parameters = field toolCall ''input'',
       otc_arguments = map_option stringify (field toolCall ''input'') \<rparr>"

definition toolResultMessage :: "json \<Rightarrow> openai_message" where
  "toolResultMessage toolResult =
     \<lparr> om_role = ''tool'',
       om_content = js_or (field toolResult ''text'') (field toolResult ''content''),
       om_tool_calls = None,
       om_tool_call_id = field toolResult ''tool_use_id'' \<rparr>"

text \<open>
  The callback of \<open>payload.messages.forEach\<close>: the messages it pushes. The filters
  read \<open>item.type\<close>, which throws on a \<open>null\<close> item; \<open>JSON.stringify\<close> is a
  parameter.
\<close>

definition translateMessage :: "(json \<Rightarrow> string) \<Rightarrow> anthropic_message \<Rightarrow> failure + openai_message list" where
  "translateMessage stringify msg =
     (let items = (case am_content msg of JArr xs \<Rightarrow> xs | _ \<Rightarrow> [])
      in if JNull \<in> set items then Inl TypeError
         else
          (let toolCalls = map (toolCallOf stringify) (filter (has_type ''tool_use'') items)
           in case normalizeContent (case am_content msg of JStr s \<Rightarrow> JStr s | _ \<Rightarrow> JStr []) of
                Inl f \<Rightarrow> Inl f
              | Inr normalized \<Rightarrow>
                 (let newMsg = \<lparr> om_role = am_role msg,
                        om_content = (case normalized of
                                        Some s \<Rightarrow> if s \<noteq> [] then Some (JStr s) else None
                                      | None \<Rightarrow> None),
                        om_tool_calls = (if toolCalls \<noteq> [] then Some toolCalls else None),
                        om_tool_call_id = None \<rparr>;
                      pushed = (if om_content newMsg \<noteq> None \<or> om_tool_calls newMsg \<noteq> None
                                then [newMsg] else []);
                      toolResults = map toolResultMessage (filter (has_type ''tool_result'') items)
                  in Inr (pushed @ toolResults))))"

definition translateTools :: "proxy_config \<Rightarrow> anthropic_tool list option \<Rightarrow> openai_tool list" where
  "translateTools config tools =
     map (\<lambda>tool. \<lparr> ot_name = at_name tool, ot_description = at_description tool,
                    ot_parameters = map_option removeUriFormat (at_input_schema tool) \<rparr>)
       (filter (\<lambda>tool. at_name tool \<notin> set (excluded_tools config))
          (case tools of Some ts \<Rightarrow> ts | None \<Rightarrow> []))"

definition translateRequest ::
  "proxy_config \<Rightarrow> (json \<Rightarrow> string) \<Rightarrow> anthropic_request \<Rightarrow> failure + openai_request" where
  "translateRequest config stringify payload =
     (case collect (map systemMessage
                     (case ar_system payload of Some (JArr entries) \<Rightarrow> entries | _ \<Rightarrow> [])
                   @ map (translateMessage stringify) (ar_messages payload)) of
        Inl f \<Rightarrow> Inl f
      | Inr messages \<Rightarrow>
         (let tools = translateTools config (ar_tools payload)
          in Inr \<lparr> oq_model = (if (case ar_thinking payload of Some t \<Rightarrow> truthy t | None \<Rightarrow> False)
                               then reasoning_model config else completion_model config),
                   oq_messages = messages,
                   oq_max_tokens = (case ar_max_tokens payload of
                                      Some m \<Rightarrow> if truthy m then Some m else None
                                    | None \<Rightarrow> None),
                   oq_temperature = (case ar_temperature payload of Some t \<Rightarrow> t | None \<Rightarrow> JNum 1),
                   oq_stream = (ar_stream payload = Some (JBool True)),
                   oq_tools = (if tools \<noteq> [] then Some tools else None) \<rparr>))"

section \<open>NonStreamResponseTranslator\<close>

datatype response_block = TextContent string | ToolUseContent "string option" "string option" json

record usage_report =
  input_tokens :: int
  output_tokens :: int

record anthropic_response =
  as_content :: "response_block list"
  as_id :: string
  as_model :: string
  as_stop_reason :: stop_reason
  as_usage :: usage_report

text \<open>\<open>mapStopReason\<close>, on a finish reason that may be missing.\<close>

definition mapStopReason :: "string option \<Rightarrow> stop_reason" where
  "mapStopReason finishReason =
     (if finishReason = Some ''tool_calls'' then ToolUse
      else if finishReason = Some ''stop'' then EndTurn
      else if finishReason = Some ''length'' then MaxTokens
      else EndTurn)"

text \<open>\<open>s.replace(pattern, replacement)\<close> for a string pattern: the first occurrence.\<close>

fun replace :: "string \<Rightarrow> string \<Rightarrow> string \<Rightarrow> string" where
  "replace pattern replacement [] = (if pattern = [] then replacement else [])"
| "replace pattern replacement (c # cs) =
     (if prefix pattern (c # cs) then replacement @ drop (length pattern) (c # cs)
      else c # replace pattern replacement cs)"

text \<open>
  One \<open>tool_use\<close> block of the reply: \<open>toolCall.function.name\<close> needs the
  \<open>function\<close>, and \<open>JSON.parse\<close> (a parameter) must accept the argument string.
\<close>

definition toolUseBlock :: "(string \<Rightarrow> json option) \<Rightarrow> tool_call \<Rightarrow> failure + response_block list" where
  "toolUseBlock parse_json toolCall =
     (case tc_function toolCall of
        None \<Rightarrow> Inl TypeError
      | Some f \<Rightarrow>
         (case fn_arguments f of
            None \<Rightarrow> Inl SyntaxError
          | Some arguments \<Rightarrow>
             (case parse_json arguments of
                None \<Rightarrow> Inl SyntaxError
              | Some input \<Rightarrow> Inr [ToolUseContent (tc_id toolCall) (fn_name f) input])))"

text \<open>
  \<open>msg.content?.split(' ').length || 0\<close> on an outbound message: nothing for a
  missing or \<open>null\<close> content, the number of pieces for a string, and a type error for
  any other value, which has no \<open>split\<close>.
\<close>

definition contentPieces :: "json option \<Rightarrow> failure + nat" where
  "contentPieces content =
     (case content of
        None \<Rightarrow> Inr 0
      | Some JNull \<Rightarrow> Inr 0
      | Some (JStr s) \<Rightarrow> Inr (length (split CHR '' '' s))
      | Some _ \<Rightarrow> Inl TypeError)"

fun inputEstimate :: "openai_message list \<Rightarrow> nat \<Rightarrow> failure + nat" where
  "inputEstimate [] acc = Inr acc"
| "inputEstimate (msg # msgs) acc =
     (case contentPieces (om_content msg) of
        Inl f \<Rightarrow> Inl f
      | Inr n \<Rightarrow> inputEstimate msgs (acc + n))"

definition outputEstimate :: "string option \<Rightarrow> nat" where
  "outputEstimate content = (case content of None \<Rightarrow> 0 | Some s \<Rightarrow> length (split CHR '' '' s))"

text \<open>
  The non-streaming branch, from the parsed body on. \<open>fresh_id\<close> is the id drawn
  with \<open>Math.random\<close> when the backend sent none.
\<close>

definition translateResponse ::
  "(string \<Rightarrow> json option) \<Rightarrow> string \<Rightarrow> openai_request \<Rightarrow> openai_response
     \<Rightarrow> failure + anthropic_response" where
  "translateResponse parse_json fresh_id openaiPayload data =
     (case r_error data of
        Some message \<Rightarrow> Inl (BackendError message)
      | None \<Rightarrow>
     (case r_choices data of
        None \<Rightarrow> Inl TypeError
      | Some [] \<Rightarrow> Inl NoChoices
      | Some (choice # _) \<Rightarrow>
     (case ch_message choice of
        None \<Rightarrow> Inl TypeError
      | Some openaiMessage \<Rightarrow>
         (let stopReason = mapStopReason (ch_finish_reason choice);
              toolCalls = (case m_tool_calls openaiMessage of Some tcs \<Rightarrow> tcs | None \<Rightarrow> []);
              messageId = (if truthy_string (r_id data)
                           then replace ''chatcmpl'' ''msg'' (or_empty (r_id data))
                           else fresh_id)
          in case collect (map (toolUseBlock parse_json) toolCalls) of
               Inl f \<Rightarrow> Inl f
             | Inr blocks \<Rightarrow>
                (case r_usage data of
                   Some u \<Rightarrow>
                     Inr \<lparr> as_content = TextContent (or_empty (m_content openaiMessage)) # blocks,
                           as_id = messageId, as_model = oq_model openaiPayload,
                           as_stop_reason = stopReason,
                           as_usage = \<lparr> input_tokens = prompt_tokens u,
                                        output_tokens = completion_tokens u \<rparr> \<rparr>
                 | None \<Rightarrow>
                    (case inputEstimate (oq_messages openaiPayload) 0 of
                       Inl f \<Rightarrow> Inl f
                     | Inr n \<Rightarrow>
                        Inr \<lparr> as_content = TextContent (or_empty (m_content openaiMessage)) # blocks,
                              as_id = messageId, as_model = oq_model openaiPayload,
                              as_stop_reason = stopReason,
                              as_usage = \<lparr> input_tokens = int n,
                                output_tokens = int (outputEstimate (m_content openaiMessage)) \<rparr> \<rparr>))))))"

section \<open>ProxyOrchestrator\<close>

text \<open>
  The backend's answer to \<open>fetch\<close>: its status and the chunks of its body (\<open>None\<close>
  when the response has no body to read). \<open>text()\<close> is the body as one string.
\<close>

record backend_response =
  status :: nat
  body :: "string list option"

definition ok :: "backend_response \<Rightarrow> bool" where
  "ok response = (200 \<le> status response \<and> status response \<le> 299)"

definition body_text :: "backend_response \<Rightarrow> string" where
  "body_text response = (case body response of Some chunks \<Rightarrow> concat chunks | None \<Rightarrow> [])"

text \<open>
  What the handler returns to Fastify: a JSON value, the translated message, or, from
  the \<open>catch\<close>, the object \<open>{ error: error.message }\<close> of the failure. A reply is
  the code set with \<open>reply.code\<close> (if any), the returned value (if any) and the state
  of the raw channel.
\<close>

datatype payload = Json json | Message anthropic_response | ErrorOf failure

record reply =
  code :: "nat option"
  returned :: "payload option"
  raw :: streaming

definition caught :: "failure \<Rightarrow> streaming \<Rightarrow> reply" where
  "caught f s = \<lparr> code = Some 500, returned = Some (ErrorOf f), raw = s \<rparr>"

text \<open>
  The external parts are parameters: \<open>JSON.stringify\<close>, \<open>JSON.parse\<close> on an
  argument string, \<open>JSON.parse\<close> on a body or a data line read as a response, the
  id drawn at random, and \<open>fetch\<close>, which gives a response or rejects.
\<close>

record externals =
  ex_stringify :: "json \<Rightarrow> string"
  ex_parse_json :: "string \<Rightarrow> json option"
  ex_parse_response :: "string \<Rightarrow> parse_result"
  ex_fresh_id :: string
  ex_fetch :: "openai_request \<Rightarrow> backend_response option"

definition handler :: "proxy_config \<Rightarrow> externals \<Rightarrow> anthropic_request \<Rightarrow> reply" where
  "handler config ext payload =
     (case translateRequest config (ex_stringify ext) payload of
        Inl f \<Rightarrow> caught f streamingState
      | Inr openaiPayload \<Rightarrow>
     (case ex_fetch ext openaiPayload of
        None \<Rightarrow> caught TypeError streamingState
      | Some openaiResponse \<Rightarrow>
         if \<not> ok openaiResponse then
           \<lparr> code = Some (status openaiResponse),
             returned = Some (Json (JObj [(''error'', JStr (body_text openaiResponse))])),
             raw = streamingState \<rparr>
         else if \<not> oq_stream openaiPayload then
           (case ex_parse_response ext (body_text openaiResponse) of
              ParseFailure \<Rightarrow> caught SyntaxError streamingState
            | ParsedNull \<Rightarrow> caught TypeError streamingState
            | Parsed data \<Rightarrow>
               (case translateResponse (ex_parse_json ext) (ex_fresh_id ext) openaiPayload data of
                  Inl f \<Rightarrow> caught f streamingState
                | Inr anthropicResponse \<Rightarrow>
                    \<lparr> code = None, returned = Some (Message anthropicResponse),
                      raw = streamingState \<rparr>))
         else
           (case body openaiResponse of
              None \<Rightarrow> caught NoReader streamingState
            | Some chunks \<Rightarrow>
               (case streamResponse (ex_parse_response ext) chunks of
                  (Thrown f, s) \<Rightarrow> caught f s
                | (_, s) \<Rightarrow> \<lparr> code = None, returned = None, raw = s \<rparr>))))"

section \<open>Vocabulary of the specification\<close>

text \<open>
  The notions below come from the wording of the specification, not from the code;
  the theorems compare the code with them.
\<close>

text \<open>
  The whitespace-separated words of a text: the non-empty pieces between white space.
\<close>

fun whitespace_pieces :: "string \<Rightarrow> string list" where
  "whitespace_pieces [] = [[]]"
| "whitespace_pieces (c # cs) =
     (if is_space c then [] # whitespace_pieces cs
      else (case whitespace_pieces cs of [] \<Rightarrow> [[c]] | piece # pieces \<Rightarrow> (c # piece) # pieces))"

definition word_count :: "string \<Rightarrow> nat" where
  "word_count s = length (filter (\<lambda>w. w \<noteq> []) (whitespace_pieces s))"

text \<open>
  What the code counts instead: the pieces between single spaces, one more than the
  spaces, on a content that is a string; nothing on a content without.
\<close>

definition pieces_of_content :: "json option \<Rightarrow> nat" where
  "pieces_of_content content =
     (case content of Some (JStr s) \<Rightarrow> count_list s CHR '' '' + 1 | _ \<Rightarrow> 0)"

text \<open>A content on which \<open>?.split\<close> does not throw: missing, \<open>null\<close> or a string.\<close>

definition splittable :: "json option \<Rightarrow> bool" where
  "splittable content =
     (case content of None \<Rightarrow> True | Some JNull \<Rightarrow> True | Some (JStr s) \<Rightarrow> True | Some _ \<Rightarrow> False)"

definition no_system_entries :: "anthropic_request \<Rightarrow> bool" where
  "no_system_entries payload =
     (case ar_system payload of Some (JArr entries) \<Rightarrow> entries = [] | _ \<Rightarrow> True)"

definition no_tools :: "anthropic_request \<Rightarrow> bool" where
  "no_tools payload = (case ar_tools payload of Some ts \<Rightarrow> ts = [] | None \<Rightarrow> True)"

text \<open>The events that only the finalization sends.\<close>

fun closing :: "sse_event \<Rightarrow> bool" where
  "closing (ContentBlockStop i) = True"
| "closing (MessageDelta r n) = True"
| "closing MessageStop = True"
| "closing e = False"

text \<open>
  The order of the events of one content-block index, read off an event sequence from
  left to right with the set of indices opened and the set of indices closed so far: a
  start needs its index not opened yet, a delta needs its index opened and not closed,
  a stop as well, and a stop closes the index. \<open>None\<close> is a violation.
\<close>

fun block_step :: "nat set \<times> nat set \<Rightarrow> sse_event \<Rightarrow> (nat set \<times> nat set) option" where
  "block_step (opened, closed) (ContentBlockStart i b) =
     (if i \<notin> opened then Some (insert i opened, closed) else None)"
| "block_step (opened, closed) (ContentBlockDelta i d) =
     (if i \<in> opened \<and> i \<notin> closed then Some (opened, closed) else None)"
| "block_step (opened, closed) (ContentBlockStop i) =
     (if i \<in> opened \<and> i \<notin> closed then Some (opened, insert i closed) else None)"
| "block_step (opened, closed) e = Some (opened, closed)"

fun block_scan :: "(nat set \<times> nat set) option \<Rightarrow> sse_event list \<Rightarrow> (nat set \<times> nat set) option" where
  "block_scan st [] = st"
| "block_scan st (e # es) =
     block_scan (case st of None \<Rightarrow> None | Some x \<Rightarrow> block_step x e) es"

text \<open>
  The streaming invariant of the specification on a finished output: the order above
  is respected, every index is opened at most once and every index opened is closed
  (once: a second stop is a violation); one \<open>message_start\<close> comes first and one
  \<open>message_stop\<close> last.
\<close>

definition block_order :: "sse_event list \<Rightarrow> bool" where
  "block_order es =
     (case block_scan (Some ({}, {})) es of
        Some (opened, closed) \<Rightarrow> opened = closed
      | None \<Rightarrow> False)"



text \<open>The partial-JSON fragments sent for an index, in order.\<close>

fun partial_json_at :: "nat \<Rightarrow> sse_event list \<Rightarrow> string list" where
  "partial_json_at idx [] = []"
| "partial_json_at idx (ContentBlockDelta i (InputJsonDelta fragment) # es) =
     (if i = idx then fragment # partial_json_at idx es else partial_json_at idx es)"
| "partial_json_at idx (e # es) = partial_json_at idx es"

text \<open>
  The fragments the specification asks for, given the value stored and the argument
  strings to come: a string strictly longer than the stored one contributes its suffix
  beyond the stored length and is stored; any other contributes nothing.
\<close>

fun expected_fragments :: "string \<Rightarrow> string list \<Rightarrow> string list" where
  "expected_fragments stored [] = []"
| "expected_fragments stored (a # as) =
     (if length a > length stored then drop (length stored) a # expected_fragments a as
      else expected_fragments stored as)"

text \<open>Cumulative argument strings: each one extends the one before.\<close>

fun cumulative :: "string list \<Rightarrow> bool" where
  "cumulative (a # b # rest) = (prefix a b \<and> cumulative (b # rest))"
| "cumulative _ = True"

text \<open>An index field that JavaScript takes as false.\<close>

fun falsy_index :: "index_field \<Rightarrow> bool" where
  "falsy_index (IndexNumber n) = (n = 0)"
| "falsy_index _ = True"

text \<open>The content-block index an event is about, if any.\<close>

fun event_index :: "sse_event \<Rightarrow> nat option" where
  "event_index (ContentBlockStart i b) = Some i"
| "event_index (ContentBlockDelta i d) = Some i"
| "event_index (ContentBlockStop i) = Some i"
| "event_index e = None"

fun is_block_start :: "sse_event \<Rightarrow> bool" where
  "is_block_start (ContentBlockStart i b) = True"
| "is_block_start e = False"

section \<open>Invariants of the streaming state\<close>

text \<open>
  The content-block indices that the state records as opened: index 0 when the text
  block was started, and every key of the accumulators.
\<close>

definition opened_blocks :: "streaming \<Rightarrow> nat set" where
  "opened_blocks s =
     (if textBlockStarted s then {0} else {}) \<union> fst ` set (toolCallAccumulators s)"

text \<open>
  Before the sentinel: the channel is not ended, nothing of the finalization was sent,
  and the output is empty until \<open>sendSuccessMessage\<close> ran, from when on it starts with
  the only \<open>message_start\<close> and the ping.
\<close>

definition framed :: "streaming \<Rightarrow> bool" where
  "framed s =
     (\<not> ended s \<and> (\<forall>e\<in>set (sent s). \<not> closing e) \<and>
      (if isSucceeded s
       then (\<exists>rest. sent s = MessageStart # Ping # rest \<and> MessageStart \<notin> set rest)
       else sent s = []))"

text \<open>A state that has seen both a text or reasoning delta and a tool-call delta.\<close>

definition mixed :: "streaming \<Rightarrow> bool" where
  "mixed s = (textBlockStarted s \<and> encounteredToolCall s)"

text \<open>
  Between two frames: the accumulator keys are distinct, and there are none before a
  tool call was seen; and unless the state is mixed, the events sent respect the order
  of every block, open exactly the indices that the state records, each once, and close
  none.
\<close>

definition blocks_open :: "streaming \<Rightarrow> bool" where
  "blocks_open s =
     ((\<not> mixed s \<longrightarrow> block_scan (Some ({}, {})) (sent s) = Some (opened_blocks s, {}))
      \<and> distinct (map fst (toolCallAccumulators s))
      \<and> (\<not> encounteredToolCall s \<longrightarrow> toolCallAccumulators s = []))"

text \<open>
  The finalization, for the proofs: the indices that get a \<open>content_block_stop\<close>,
  and the \<open>output_tokens\<close> of the \<open>message_delta\<close> with the estimate written as
  one more than the spaces of each accumulated text.
\<close>

definition stop_indices :: "streaming \<Rightarrow> nat list" where
  "stop_indices s =
     (if encounteredToolCall s then accumulator_keys (toolCallAccumulators s)
      else if textBlockStarted s then [0] else [])"

definition tokens_expected :: "streaming \<Rightarrow> int" where
  "tokens_expected s =
     (case usage s of
        Some u \<Rightarrow> completion_tokens u
      | None \<Rightarrow> int ((count_list (accumulatedContent s) CHR '' '' + 1)
                    + (count_list (accumulatedReasoning s) CHR '' '' + 1)))"

text \<open>A step of the state that only sends events which are neither closing nor a \<open>message_start\<close>.\<close>

definition extends :: "streaming \<Rightarrow> streaming \<Rightarrow> bool" where
  "extends s s' = (isSucceeded s' = isSucceeded s \<and> ended s' = ended s \<and>
     (\<exists>new. sent s' = sent s @ new \<and> (\<forall>e\<in>set new. \<not> closing e \<and> e \<noteq> MessageStart)))"

text \<open>Unless the state is mixed, the events sent respect the order of every block and close none.\<close>

definition scanned :: "streaming \<Rightarrow> bool" where
  "scanned s =
     (\<not> mixed s \<longrightarrow> (\<exists>opened. block_scan (Some ({}, {})) (sent s) = Some (opened, {})))"








text \<open>The lines of a whole body, chunk after chunk.\<close>

definition body_lines :: "(string \<Rightarrow> parse_result) \<Rightarrow> string list \<Rightarrow> line_kind list" where
  "body_lines parse chunks = concat (map (chunk_lines parse) chunks)"

section \<open>Example inputs\<close>

text \<open>Concrete requests, responses and surroundings, on which the theorems are instantiated.\<close>

definition demo_config :: proxy_config where
  "demo_config = \<lparr> reasoning_model = ''reasoner'', completion_model = ''completer'',
     excluded_tools = [] \<rparr>"

definition user_text_request :: "string \<Rightarrow> anthropic_request" where
  "user_text_request t = \<lparr> ar_system = None,
     ar_messages = [\<lparr> am_role = ''user'', am_content = JStr t \<rparr>], ar_tools = None,
     ar_max_tokens = None, ar_temperature = None, ar_stream = None, ar_thinking = None \<rparr>"

text \<open>A backend that answers every request with status 404 and the body \<open>not found\<close>.\<close>

definition failing_backend :: externals where
  "failing_backend = \<lparr> ex_stringify = (\<lambda>v. []), ex_parse_json = (\<lambda>t. None),
     ex_parse_response = (\<lambda>t. ParseFailure), ex_fresh_id = ''msg_0'',
     ex_fetch = (\<lambda>q. Some \<lparr> status = 404, body = Some [''not found''] \<rparr>) \<rparr>"

text \<open>An outbound request and a complete response whose texts hold two spaces in a row.\<close>

definition two_space_request :: openai_request where
  "two_space_request = \<lparr> oq_model = ''completer'',
     oq_messages = [\<lparr> om_role = ''user'', om_content = Some (JStr ''Hello  world''),
        om_tool_calls = None, om_tool_call_id = None \<rparr>],
     oq_max_tokens = None, oq_temperature = JNum 1, oq_stream = False, oq_tools = None \<rparr>"

definition two_space_response :: openai_response where
  "two_space_response = \<lparr> r_id = Some ''chatcmpl-1'', r_error = None,
     r_choices = Some [\<lparr> ch_message = Some \<lparr> m_content = Some ''a  b'', m_tool_calls = None \<rparr>,
        ch_delta = None, ch_finish_reason = Some ''stop'' \<rparr>],
     r_usage = None \<rparr>"

text \<open>
  An outbound request whose second message is a tool result with an array as content,
  as the request translator forwards it.
\<close>

definition array_content_request :: openai_request where
  "array_content_request = \<lparr> oq_model = ''completer'',
     oq_messages = [\<lparr> om_role = ''user'', om_content = Some (JStr ''Hello''),
        om_tool_calls = None, om_tool_call_id = None \<rparr>,
       \<lparr> om_role = ''tool'',
         om_content = Some (JArr [JObj [(''type'', JStr ''text''), (''text'', JStr ''sunny'')]]),
         om_tool_calls = None, om_tool_call_id = Some (JStr ''call_1'') \<rparr>],
     oq_max_tokens = None, oq_temperature = JNum 1, oq_stream = False, oq_tools = None \<rparr>"

text \<open>
  Stream frames: a text delta, a reasoning-free structural frame (a delta carrying a
  role only, so none of the fields the proxy reads), and a frame with one tool-call
  delta.
\<close>

definition content_frame :: "string \<Rightarrow> openai_response" where
  "content_frame t = \<lparr> r_id = None, r_error = None,
     r_choices = Some [\<lparr> ch_message = None,
        ch_delta = Some \<lparr> d_tool_calls = None, d_content = Some t, d_reasoning = None \<rparr>,
        ch_finish_reason = None \<rparr>],
     r_usage = None \<rparr>"

definition structural_frame :: openai_response where
  "structural_frame = \<lparr> r_id = None, r_error = None,
     r_choices = Some [\<lparr> ch_message = None,
        ch_delta = Some \<lparr> d_tool_calls = None, d_content = None, d_reasoning = None \<rparr>,
        ch_finish_reason = None \<rparr>],
     r_usage = None \<rparr>"

definition tool_frame ::
  "index_field \<Rightarrow> string option \<Rightarrow> string option \<Rightarrow> string \<Rightarrow> openai_response" where
  "tool_frame ix tid name arguments = \<lparr> r_id = None, r_error = None,
     r_choices = Some [\<lparr> ch_message = None,
        ch_delta = Some \<lparr> d_tool_calls = Some [\<lparr> tc_index = ix, tc_id = tid,
              tc_function = Some \<lparr> fn_name = name, fn_arguments = Some arguments \<rparr> \<rparr>],
           d_content = None, d_reasoning = None \<rparr>,
        ch_finish_reason = None \<rparr>],
     r_usage = None \<rparr>"

text \<open>A stand-in for \<open>JSON.parse\<close> that knows the texts of the examples.\<close>

definition demo_parse :: "string \<Rightarrow> parse_result" where
  \<open>demo_parse t =
     (if t = ''{"choices":[{"delta":{"content":"Hi"}}]}'' then Parsed (content_frame ''Hi'')
      else if t = ''{"choices":[{"delta":{"role":"assistant"}}]}'' then Parsed structural_frame
      else if t = ''{"choices":[{"delta":{"tool_calls":[{"index":1,"id":"call_1","function":{"name":"get_weather","arguments":"{}"}}]}}]}''
        then Parsed (tool_frame (IndexNumber 1) (Some ''call_1'') (Some ''get_weather'') ''{}'')
      else if t = ''null'' then ParsedNull
      else ParseFailure)\<close>

text \<open>Data lines and bodies of the examples.\<close>

definition hi_line :: string where
  \<open>hi_line = ''data: {"choices":[{"delta":{"content":"Hi"}}]}''\<close>

definition role_line :: string where
  \<open>role_line = ''data: {"choices":[{"delta":{"role":"assistant"}}]}''\<close>

definition weather_line :: string where
  \<open>weather_line = ''data: {"choices":[{"delta":{"tool_calls":[{"index":1,"id":"call_1","function":{"name":"get_weather","arguments":"{}"}}]}}]}''\<close>

definition done_line :: string where
  "done_line = ''data: [DONE]''"


text \<open>A text delta, then a tool call at index 1, then the sentinel in a chunk of its own.\<close>

definition text_then_tool :: "string list" where
  "text_then_tool = [hi_line @ ''\<newline>\<newline>'' @ weather_line @ ''\<newline>\<newline>'',
     done_line @ ''\<newline>\<newline>'']"

text \<open>A text delta, after which the backend closes the body.\<close>

definition hi_then_eof :: "string list" where
  "hi_then_eof = [hi_line @ ''\<newline>\<newline>'']"

text \<open>A request that asks for streaming, and a backend that answers 200 with a given body.\<close>

definition streaming_request :: anthropic_request where
  "streaming_request = (user_text_request ''Hello'')\<lparr> ar_stream := Some (JBool True) \<rparr>"

definition streaming_backend :: "string list \<Rightarrow> externals" where
  "streaming_backend chunks = \<lparr> ex_stringify = (\<lambda>v. []), ex_parse_json = (\<lambda>t. None),
     ex_parse_response = demo_parse, ex_fresh_id = ''msg_0'',
     ex_fetch = (\<lambda>q. Some \<lparr> status = 200, body = Some chunks \<rparr>) \<rparr>"

text \<open>
  The value stored for an index (empty before the index is opened), and the data lines
  of a run of frames that each carry one tool-call delta for the same index field.
\<close>

definition stored_at :: "nat \<Rightarrow> streaming \<Rightarrow> string" where
  "stored_at idx s = (case map_of (toolCallAccumulators s) idx of Some a \<Rightarrow> a | None \<Rightarrow> [])"

definition tool_lines ::
  "index_field \<Rightarrow> (string option \<times> string option \<times> string) list \<Rightarrow> line_kind list" where
  "tool_lines ix calls = map (\<lambda>(tid, name, a). Payload (Parsed (tool_frame ix tid name a))) calls"

text \<open>The three cumulative argument strings of the specification's example.\<close>

definition three_calls :: "(string option \<times> string option \<times> string) list" where
  \<open>three_calls = [(Some ''call_1'', Some ''f'', ''{''), (None, None, ''{"a":1''),
     (None, None, ''{"a":1}'')]\<close>

text \<open>Two tool calls of different ids, neither with a usable index.\<close>

definition two_unindexed_calls :: "tool_call list" where
  \<open>two_unindexed_calls =
     [\<lparr> tc_index = IndexAbsent, tc_id = Some ''call_a'',
        tc_function = Some \<lparr> fn_name = Some ''first'', fn_arguments = Some ''{}'' \<rparr> \<rparr>,
      \<lparr> tc_index = IndexNull, tc_id = Some ''call_b'',
        tc_function = Some \<lparr> fn_name = Some ''second'', fn_arguments = Some ''{"x":1}'' \<rparr> \<rparr>]\<close>

section \<open>Auxiliary facts about the translators\<close>

lemma length_split: "length (split sep s) = count_list s sep + 1"
  by (induction s) (auto split: list.splits)

lemma contentPieces_splittable:
  "splittable c \<Longrightarrow> contentPieces c = Inr (pieces_of_content c)"
  by (auto simp: splittable_def contentPieces_def pieces_of_content_def length_split
      split: option.splits json.splits)

lemma inputEstimate_sum:
  "\<forall>msg\<in>set msgs. splittable (om_content msg) \<Longrightarrow>
     inputEstimate msgs acc = Inr (acc + sum_list (map (\<lambda>msg. pieces_of_content (om_content msg)) msgs))"
  by (induction msgs arbitrary: acc) (auto simp: contentPieces_splittable)

lemma contentPieces_throws:
  "\<not> splittable c \<Longrightarrow> contentPieces c = Inl TypeError"
  by (auto simp: splittable_def contentPieces_def split: option.splits json.splits)

lemma inputEstimate_throws:
  "\<not> list_all (\<lambda>msg. splittable (om_content msg)) msgs \<Longrightarrow>
     inputEstimate msgs acc = Inl TypeError"
proof (induction msgs arbitrary: acc)
  case Nil
  then show ?case by simp
next
  case (Cons msg msgs)
  show ?case
  proof (cases "splittable (om_content msg)")
    case True
    with Cons show ?thesis by (simp add: contentPieces_splittable)
  next
    case False
    then show ?thesis by (simp add: contentPieces_throws)
  qed
qed

section \<open>Auxiliary facts about the StreamingReencoder\<close>

subsection \<open>Runs\<close>

lemma block_scan_append: "block_scan st (xs @ ys) = block_scan (block_scan st xs) ys"
  by (induction xs arbitrary: st) auto

lemma block_scan_None: "block_scan None es = None"
  by (induction es) auto

lemma handleLines_append:
  "handleLines (xs @ ys) s =
     (case handleLines xs s of (Continue, s') \<Rightarrow> handleLines ys s' | stopped \<Rightarrow> stopped)"
  by (induction xs arbitrary: s) (auto split: prod.splits signal.splits)

lemma readLoop_handleLines:
  "readLoop parse chunks s = handleLines (concat (map (chunk_lines parse) chunks)) s"
  by (induction chunks arbitrary: s) (auto simp: handleLines_append split: prod.splits signal.splits)

lemma toolCallDelta_not_Returned: "fst (toolCallDelta tc s) \<noteq> Returned"
  by (simp add: toolCallDelta_def Let_def split: option.splits)

lemma toolCallsLoop_not_Returned: "fst (toolCallsLoop tcs s) \<noteq> Returned"
proof (induction tcs arbitrary: s)
  case Nil
  then show ?case by simp
next
  case (Cons tc tcs)
  obtain sig s' where step: "toolCallDelta tc s = (sig, s')" by (cases "toolCallDelta tc s")
  with toolCallDelta_not_Returned [of tc s] have "sig \<noteq> Returned" by simp
  with step Cons.IH [of s'] show ?case by (cases sig) auto
qed

lemma handleDelta_not_Returned: "fst (handleDelta delta s) \<noteq> Returned"
  by (simp add: handleDelta_def Let_def toolCallsLoop_not_Returned split: option.splits)

lemma handleFrame_not_Returned: "fst (handleFrame p s) \<noteq> Returned"
  by (simp add: handleFrame_def Let_def handleDelta_not_Returned
      split: parse_result.splits option.splits)

lemma handleLine_Returned:
  "handleLine k s = (Returned, s') \<Longrightarrow> k = Sentinel \<and> s' = finalize s"
  using handleFrame_not_Returned [of _ s]
  by (auto simp: handleLine_def split: line_kind.splits) (metis fst_conv)

lemma handleLine_Continue:
  "handleLine k s = (Continue, s') \<Longrightarrow>
     (k = Skipped \<and> s' = s) \<or> (\<exists>p. k = Payload p \<and> handleFrame p s = (Continue, s'))"
  by (auto simp: handleLine_def split: line_kind.splits)

lemma handleLine_Thrown:
  "handleLine k s = (Thrown f, s') \<Longrightarrow> \<exists>p. k = Payload p \<and> handleFrame p s = (Thrown f, s')"
  by (auto simp: handleLine_def split: line_kind.splits)

lemma handleLines_run:
  assumes "P s"
    and step: "\<And>p t t'. P t \<Longrightarrow> handleFrame p t = (Continue, t') \<Longrightarrow> P t'"
  shows "case handleLines ks s of
            (Continue, s') \<Rightarrow> P s'
          | (Returned, s') \<Rightarrow> Sentinel \<in> set ks \<and> (\<exists>t. P t \<and> s' = finalize t)
          | (Thrown f, s') \<Rightarrow> \<exists>t p. P t \<and> handleFrame p t = (Thrown f, s')"
  using assms(1)
proof (induction ks arbitrary: s)
  case Nil
  then show ?case by simp
next
  case (Cons k ks)
  obtain sig s1 where line: "handleLine k s = (sig, s1)" by (cases "handleLine k s")
  show ?case
  proof (cases sig)
    case Continue
    with line handleLine_Continue [of k s s1] step Cons.prems have "P s1" by auto
    from Cons.IH [OF this] line Continue show ?thesis
      by (auto split: prod.splits signal.splits)
  next
    case Returned
    with line handleLine_Returned [of k s s1] Cons.prems show ?thesis by auto
  next
    case (Thrown f)
    with line handleLine_Thrown [of k s f s1] Cons.prems show ?thesis by auto
  qed
qed

lemma map_of_None_keys: "map_of al k = None \<longleftrightarrow> k \<notin> fst ` set al"
  by (simp add: map_of_eq_None_iff)

lemma keys_update: "fst ` set (AList.update k v al) = insert k (fst ` set al)"
  by (simp add: AList.dom_update)

subsection \<open>Framing\<close>

lemma extends_refl: "extends s s"
  by (simp add: extends_def)

lemma extends_trans: "extends s t \<Longrightarrow> extends t u \<Longrightarrow> extends s u"
  by (auto simp: extends_def)

lemma toolCallDelta_extends: "extends s (snd (toolCallDelta tc s))"
  by (auto simp: toolCallDelta_def Let_def sendSSE_def extends_def split: option.splits)

lemma toolCallsLoop_extends: "extends s (snd (toolCallsLoop tcs s))"
proof (induction tcs arbitrary: s)
  case Nil
  then show ?case by (simp add: extends_refl)
next
  case (Cons tc tcs)
  obtain sig s' where step: "toolCallDelta tc s = (sig, s')" by (cases "toolCallDelta tc s")
  with toolCallDelta_extends [of s tc] have 1: "extends s s'" by simp
  show ?case
  proof (cases sig)
    case Continue
    with step 1 Cons.IH [of s'] show ?thesis by (auto intro: extends_trans)
  qed (use step 1 in auto)
qed

lemma handleDelta_extends: "extends s (snd (handleDelta delta s))"
  by (auto simp: handleDelta_def Let_def toolCallsLoop_extends extends_refl
      split: option.splits)
     (auto simp: extends_def openTextBlock_def sendSSE_def)

lemma framed_extends: "framed s \<Longrightarrow> isSucceeded s \<Longrightarrow> extends s s' \<Longrightarrow> framed s'"
  by (auto simp: framed_def extends_def split: if_splits)

lemma framed_sendSuccessMessage: "framed s \<Longrightarrow> framed (sendSuccessMessage s)"
  by (auto simp: framed_def sendSuccessMessage_def sendSSE_def)

lemma framed_usage: "framed s \<Longrightarrow> framed (s\<lparr> usage := u \<rparr>)"
  by (simp add: framed_def)

lemma isSucceeded_sendSuccessMessage: "isSucceeded (sendSuccessMessage s)"
  by (simp add: sendSuccessMessage_def sendSSE_def)

lemma handleFrame_framed: "framed s \<Longrightarrow> framed (snd (handleFrame p s))"
  by (auto simp: handleFrame_def Let_def framed_sendSuccessMessage framed_usage
      isSucceeded_sendSuccessMessage
      intro!: framed_extends [OF _ _ handleDelta_extends]
      split: parse_result.splits option.splits)

lemma framed_initial: "framed streamingState"
  by (simp add: framed_def streamingState_def)

subsection \<open>Blocks\<close>

lemma blocks_open_sendSuccessMessage: "blocks_open s \<Longrightarrow> blocks_open (sendSuccessMessage s)"
  by (simp add: blocks_open_def mixed_def opened_blocks_def sendSuccessMessage_def sendSSE_def
      block_scan_append)

lemma blocks_open_usage: "blocks_open s \<Longrightarrow> blocks_open (s\<lparr> usage := u \<rparr>)"
  by (simp add: blocks_open_def mixed_def opened_blocks_def)

lemma toolCallDelta_flags:
  "textBlockStarted (snd (toolCallDelta tc s)) = textBlockStarted s"
  "encounteredToolCall (snd (toolCallDelta tc s))"
  by (simp_all add: toolCallDelta_def Let_def sendSSE_def split: option.splits)

lemma toolCallDelta_blocks:
  assumes "blocks_open s" and "toolCallDelta tc s = (Continue, s')"
  shows "blocks_open s'"
proof -
  from assms(2) obtain f where f: "tc_function tc = Some f"
    by (auto simp: toolCallDelta_def Let_def split: option.splits)
  let ?idx = "index_or_zero (tc_index tc)"
  let ?new = "or_empty (fn_arguments f)"
  show ?thesis
  proof (cases "map_of (toolCallAccumulators s) ?idx")
    case None
    then have fresh: "?idx \<notin> fst ` set (toolCallAccumulators s)"
      by (simp add: map_of_None_keys)
    from assms(2) f None have s': "s' = (if ?new \<noteq> []
        then s\<lparr> encounteredToolCall := True,
               toolCallAccumulators :=
                 AList.update ?idx ?new (toolCallAccumulators s @ [(?idx, [])]),
               sent := sent s @ [ContentBlockStart ?idx (ToolUseBlock (tc_id tc) (fn_name f)),
                 ContentBlockDelta ?idx (InputJsonDelta ?new)] \<rparr>
        else s\<lparr> encounteredToolCall := True,
               toolCallAccumulators := toolCallAccumulators s @ [(?idx, [])],
               sent := sent s @ [ContentBlockStart ?idx (ToolUseBlock (tc_id tc) (fn_name f))] \<rparr>)"
      by (auto simp: toolCallDelta_def Let_def sendSSE_def map_add_def split: if_splits)
    from assms(1) fresh show ?thesis
      unfolding s'
      by (simp add: blocks_open_def mixed_def opened_blocks_def block_scan_append keys_update
          AList.distinct_update)
  next
    case (Some old)
    then have k: "?idx \<in> fst ` set (toolCallAccumulators s)"
      by (force dest: map_of_SomeD)
    then have k': "insert ?idx (fst ` set (toolCallAccumulators s)) = fst ` set (toolCallAccumulators s)"
      by (rule insert_absorb)
    from assms(2) f Some have "s' = (if length ?new > length old
        then s\<lparr> encounteredToolCall := True,
               sent := sent s @ [ContentBlockDelta ?idx
                 (InputJsonDelta (drop (length old) ?new))],
               toolCallAccumulators := AList.update ?idx ?new (toolCallAccumulators s) \<rparr>
        else s\<lparr> encounteredToolCall := True \<rparr>)"
      by (auto simp: toolCallDelta_def Let_def sendSSE_def split: if_splits)
    with assms(1) show ?thesis
      by (simp add: blocks_open_def mixed_def opened_blocks_def block_scan_append keys_update
          k k' AList.distinct_update)
  qed
qed

lemma toolCallDelta_Thrown_sent:
  "toolCallDelta tc s = (Thrown f, s') \<Longrightarrow> sent s' = sent s"
  by (auto simp: toolCallDelta_def Let_def split: option.splits if_splits)

lemma blocks_open_scanned: "blocks_open s \<Longrightarrow> scanned s"
  by (auto simp: blocks_open_def scanned_def)

lemma toolCallsLoop_blocks:
  "blocks_open s \<Longrightarrow> toolCallsLoop tcs s = (sig, s') \<Longrightarrow>
     (sig = Continue \<longrightarrow> blocks_open s') \<and> scanned s'"
proof (induction tcs arbitrary: s)
  case Nil
  then show ?case by (auto simp: blocks_open_scanned)
next
  case (Cons tc tcs)
  obtain sig1 s1 where step: "toolCallDelta tc s = (sig1, s1)" by (cases "toolCallDelta tc s")
  show ?case
  proof (cases sig1)
    case Continue
    with step Cons.prems(1) have "blocks_open s1" by (auto intro: toolCallDelta_blocks)
    with Cons.IH [of s1] Cons.prems(2) step Continue show ?thesis by simp
  next
    case Returned
    with step toolCallDelta_not_Returned [of tc s] show ?thesis by simp
  next
    case (Thrown f)
    from toolCallDelta_flags [of tc s] step
    have "textBlockStarted s1 = textBlockStarted s" "encounteredToolCall s1" by simp_all
    with Thrown step Cons.prems toolCallDelta_Thrown_sent [of tc s f s1] show ?thesis
      by (auto simp: scanned_def blocks_open_def mixed_def)
  qed
qed

lemma openTextBlock_blocks: "blocks_open s \<Longrightarrow> blocks_open (openTextBlock s)"
  by (auto simp: blocks_open_def mixed_def opened_blocks_def openTextBlock_def sendSSE_def
      block_scan_append)

lemma textBlockStarted_openTextBlock: "textBlockStarted (openTextBlock s)"
  by (simp add: openTextBlock_def sendSSE_def)

lemma text_delta_blocks:
  "blocks_open s \<Longrightarrow> textBlockStarted s \<Longrightarrow>
     blocks_open (sendSSE (ContentBlockDelta 0 d) (s\<lparr> accumulatedContent := c \<rparr>))"
  by (auto simp: blocks_open_def mixed_def opened_blocks_def sendSSE_def block_scan_append)

lemma thinking_delta_blocks:
  "blocks_open s \<Longrightarrow> textBlockStarted s \<Longrightarrow>
     blocks_open (sendSSE (ContentBlockDelta 0 d) (s\<lparr> accumulatedReasoning := r \<rparr>))"
  by (auto simp: blocks_open_def mixed_def opened_blocks_def sendSSE_def block_scan_append)

lemma handleDelta_blocks:
  "blocks_open s \<Longrightarrow> handleDelta delta s = (sig, s') \<Longrightarrow>
     (sig = Continue \<longrightarrow> blocks_open s') \<and> scanned s'"
proof (cases delta)
  case None
  then show "blocks_open s \<Longrightarrow> handleDelta delta s = (sig, s') \<Longrightarrow> ?thesis"
    by (auto simp: handleDelta_def blocks_open_scanned)
next
  case (Some d)
  assume b: "blocks_open s" and h: "handleDelta delta s = (sig, s')"
  show ?thesis
  proof (cases "d_tool_calls d")
    case (Some tcs)
    with \<open>delta = Some d\<close> h have "toolCallsLoop tcs s = (sig, s')"
      by (simp add: handleDelta_def)
    with b show ?thesis by (rule toolCallsLoop_blocks)
  next
    case None
    have o: "blocks_open (openTextBlock s)" "textBlockStarted (openTextBlock s)"
      using b by (simp_all add: openTextBlock_blocks textBlockStarted_openTextBlock)
    have c: "blocks_open (sendSSE (ContentBlockDelta 0 x)
        ((openTextBlock s)\<lparr> accumulatedContent := y \<rparr>))" for x y
      using o by (rule text_delta_blocks)
    have r: "blocks_open (sendSSE (ContentBlockDelta 0 x)
        ((openTextBlock s)\<lparr> accumulatedReasoning := y \<rparr>))" for x y
      using o by (rule thinking_delta_blocks)
    from None \<open>delta = Some d\<close> h b c r show ?thesis
      by (auto simp: handleDelta_def Let_def blocks_open_scanned split: if_splits)
  qed
qed

lemma handleFrame_blocks:
  "blocks_open s \<Longrightarrow> handleFrame p s = (sig, s') \<Longrightarrow>
     (sig = Continue \<longrightarrow> blocks_open s') \<and> scanned s'"
  by (auto simp: handleFrame_def Let_def blocks_open_scanned
      blocks_open_sendSuccessMessage blocks_open_usage
      dest: handleDelta_blocks [rotated]
      split: parse_result.splits option.splits)

lemma blocks_open_initial: "blocks_open streamingState"
  by (simp add: blocks_open_def mixed_def opened_blocks_def streamingState_def)

subsection \<open>Finalization\<close>



lemma stops_foldl:
  "foldl (\<lambda>t idx. sendSSE (ContentBlockStop idx) t) s ks
     = s\<lparr> sent := sent s @ map ContentBlockStop ks \<rparr>"
  by (induction ks arbitrary: s) (simp_all add: sendSSE_def)

lemma finalize_eq:
  "finalize s = s\<lparr> sent := sent s @ map ContentBlockStop (stop_indices s)
       @ [MessageDelta (if encounteredToolCall s then ToolUse else EndTurn) (tokens_expected s),
          MessageStop],
     ended := True \<rparr>"
  unfolding finalize_def Let_def stops_foldl
  by (simp add: sendSSE_def stop_indices_def tokens_expected_def
      output_tokens_estimate_def length_split split: option.splits)

lemma finalize_fields:
  "stop_indices (finalize s) = stop_indices s"
  "tokens_expected (finalize s) = tokens_expected s"
  "encounteredToolCall (finalize s) = encounteredToolCall s"
  "textBlockStarted (finalize s) = textBlockStarted s"
  "toolCallAccumulators (finalize s) = toolCallAccumulators s"
  "accumulatedContent (finalize s) = accumulatedContent s"
  "accumulatedReasoning (finalize s) = accumulatedReasoning s"
  "usage (finalize s) = usage s"
  "isSucceeded (finalize s) = isSucceeded s"
  "ended (finalize s)"
  by (simp_all add: finalize_eq stop_indices_def tokens_expected_def split: option.splits)


lemma run_from_start:
  "case handleLines ks streamingState of
     (Continue, s) \<Rightarrow> framed s \<and> blocks_open s
   | (Returned, s) \<Rightarrow> Sentinel \<in> set ks \<and> (\<exists>t. (framed t \<and> blocks_open t) \<and> s = finalize t)
   | (Thrown f, s) \<Rightarrow> \<exists>t p. (framed t \<and> blocks_open t) \<and> handleFrame p t = (Thrown f, s)"
proof (rule handleLines_run)
  show "framed streamingState \<and> blocks_open streamingState"
    by (simp add: framed_initial blocks_open_initial)
next
  fix p t t'
  assume "framed t \<and> blocks_open t" and "handleFrame p t = (Continue, t')"
  with handleFrame_framed [of t p] handleFrame_blocks [of t p Continue t']
  show "framed t' \<and> blocks_open t'" by simp
qed

lemma reached:
  "case readLoop parse chunks streamingState of
     (Continue, s) \<Rightarrow> framed s \<and> blocks_open s
   | (Returned, s) \<Rightarrow> Sentinel \<in> set (body_lines parse chunks)
        \<and> (\<exists>t. (framed t \<and> blocks_open t) \<and> s = finalize t)
   | (Thrown f, s) \<Rightarrow> \<exists>t p. (framed t \<and> blocks_open t) \<and> handleFrame p t = (Thrown f, s)"
  unfolding readLoop_handleLines body_lines_def by (rule run_from_start)

subsection \<open>The examples, run\<close>

lemmas stream_eval =
  streamResponse_def streamingState_def chunk_lines_def classify_def dataStr_def trim_def
  is_space_def demo_parse_def handleLine_def handleFrame_def content_frame_def
  structural_frame_def tool_frame_def handleDelta_def first_delta_def truthy_string_def
  or_empty_def openTextBlock_def sendSSE_def sendSuccessMessage_def toolCallDelta_def
  finalize_def accumulator_keys_def output_tokens_estimate_def
  hi_line_def role_line_def weather_line_def done_line_def Let_def


lemma text_then_tool_run:
  "readLoop demo_parse text_then_tool streamingState =
     (Returned, \<lparr> isSucceeded = True, accumulatedContent = ''Hi'', accumulatedReasoning = [],
        usage = None, textBlockStarted = True, encounteredToolCall = True,
        toolCallAccumulators = [(1, ''{}'')],
        sent = [MessageStart, Ping, ContentBlockStart 0 TextBlock,
                ContentBlockDelta 0 (TextDelta ''Hi''),
                ContentBlockStart 1 (ToolUseBlock (Some ''call_1'') (Some ''get_weather'')),
                ContentBlockDelta 1 (InputJsonDelta ''{}''), ContentBlockStop 1,
                MessageDelta ToolUse 2, MessageStop],
        ended = True \<rparr>)"
  by (simp add: text_then_tool_def stream_eval)

lemma hi_then_eof_run:
  "readLoop demo_parse hi_then_eof streamingState =
     (Continue, \<lparr> isSucceeded = True, accumulatedContent = ''Hi'', accumulatedReasoning = [],
        usage = None, textBlockStarted = True, encounteredToolCall = False,
        toolCallAccumulators = [],
        sent = [MessageStart, Ping, ContentBlockStart 0 TextBlock,
                ContentBlockDelta 0 (TextDelta ''Hi'')],
        ended = False \<rparr>)"
  by (simp add: hi_then_eof_def stream_eval)

lemma role_line_run:
  "readLoop demo_parse [role_line] streamingState =
     (Continue, streamingState \<lparr> isSucceeded := True, sent := [MessageStart, Ping] \<rparr>)"
  by (simp add: stream_eval)

subsection \<open>Counting and closing\<close>

lemma framed_count: "framed s \<Longrightarrow> count_list (sent s) MessageStart \<le> 1"
  by (auto simp: framed_def count_list_0_iff split: if_splits)





subsection \<open>Lines in order\<close>







subsection \<open>Where the flags come from\<close>






subsection \<open>Opening the stream\<close>

lemma handleFrame_opens:
  assumes "r_error frame = None"
  shows "\<exists>new. sent (snd (handleFrame (Parsed frame) s)) = sent (sendSuccessMessage s) @ new"
proof -
  let ?s1 = "sendSuccessMessage s"
  let ?s2 = "case r_usage frame of Some u \<Rightarrow> ?s1\<lparr> usage := Some u \<rparr> | None \<Rightarrow> ?s1"
  have s2: "sent ?s2 = sent ?s1" by (simp split: option.splits)
  show ?thesis
  proof (cases "r_choices frame")
    case None
    with assms s2 show ?thesis by (simp add: handleFrame_def Let_def)
  next
    case (Some choices)
    from handleDelta_extends [of ?s2 "first_delta choices"] s2
    obtain new where "sent (snd (handleDelta (first_delta choices) ?s2)) = sent ?s1 @ new"
      by (auto simp: extends_def)
    with assms Some show ?thesis by (simp add: handleFrame_def Let_def)
  qed
qed

lemma finalize_not_opening:
  "sent s = [] \<Longrightarrow> take 2 (sent (finalize s)) \<noteq> [MessageStart, Ping]"
  by (cases "stop_indices s") (simp_all add: finalize_eq)

lemma opening_line:
  assumes "sent s0 = []" and "\<not> isSucceeded s0"
  shows "take 2 (sent (snd (handleLine k s0))) = [MessageStart, Ping]
     \<longleftrightarrow> (\<exists>frame. k = Payload (Parsed frame) \<and> r_error frame = None)"
proof (cases k)
  case Skipped
  with assms show ?thesis by (simp add: handleLine_def)
next
  case Sentinel
  with assms finalize_not_opening [of s0] show ?thesis by (simp add: handleLine_def)
next
  case (Payload p)
  show ?thesis
  proof (cases p)
    case ParseFailure
    with Payload assms show ?thesis by (simp add: handleLine_def handleFrame_def)
  next
    case ParsedNull
    with Payload assms show ?thesis by (simp add: handleLine_def handleFrame_def)
  next
    case (Parsed frame)
    show ?thesis
    proof (cases "r_error frame")
      case None
      from handleFrame_opens [OF None, of s0] assms
      have "take 2 (sent (snd (handleFrame (Parsed frame) s0))) = [MessageStart, Ping]"
        by (auto simp: sendSuccessMessage_def sendSSE_def)
      with Payload Parsed None show ?thesis by (simp add: handleLine_def)
    next
      case (Some message)
      with Payload Parsed assms show ?thesis by (simp add: handleLine_def handleFrame_def)
    qed
  qed
qed

lemma reached_framed:
  assumes "readLoop parse chunks streamingState = (sig, s)"
  shows "(isSucceeded s \<longrightarrow> (\<exists>rest. sent s = MessageStart # Ping # rest \<and> MessageStart \<notin> set rest))
       \<and> (\<not> isSucceeded s \<and> sig \<noteq> Returned \<longrightarrow> sent s = [] \<and> \<not> ended s)
       \<and> (sig \<noteq> Returned \<longrightarrow> \<not> ended s \<and> (\<forall>e\<in>set (sent s). \<not> closing e))"
proof (cases sig)
  case Continue
  with reached [of parse chunks] assms have "framed s" by auto
  with Continue show ?thesis by (auto simp: framed_def)
next
  case (Thrown f)
  with reached [of parse chunks] assms obtain t p
    where "framed t" and "handleFrame p t = (Thrown f, s)" by auto
  with handleFrame_framed [of t p] have "framed s" by simp
  with Thrown show ?thesis by (auto simp: framed_def)
next
  case Returned
  with reached [of parse chunks] assms obtain t
    where t: "framed t" and s: "s = finalize t" by auto
  have "\<exists>rest. sent s = MessageStart # Ping # rest \<and> MessageStart \<notin> set rest"
    if "isSucceeded s"
  proof -
    from that have "isSucceeded t" unfolding s by (simp add: finalize_fields)
    with t obtain rest where "sent t = MessageStart # Ping # rest" "MessageStart \<notin> set rest"
      by (auto simp: framed_def)
    then show ?thesis unfolding s by (auto simp: finalize_eq)
  qed
  with Returned show ?thesis by simp
qed

lemma streamResponse_Thrown:
  "streamResponse parse chunks = (Thrown f, s) \<Longrightarrow> readLoop parse chunks streamingState = (Thrown f, s)"
  by (auto simp: streamResponse_def split: prod.splits signal.splits)

lemma streaming_request_translated:
  "translateRequest demo_config (ex_stringify (streaming_backend chunks)) streaming_request =
     Inr \<lparr> oq_model = ''completer'',
       oq_messages = [\<lparr> om_role = ''user'', om_content = Some (JStr ''Hello''),
          om_tool_calls = None, om_tool_call_id = None \<rparr>],
       oq_max_tokens = None, oq_temperature = JNum 1, oq_stream = True, oq_tools = None \<rparr>"
  by (simp add: translateRequest_def streaming_request_def user_text_request_def
      translateMessage_def normalizeContent_def translateTools_def demo_config_def)

subsection \<open>Tool-call arguments\<close>

lemma partial_json_at_append:
  "partial_json_at idx (xs @ ys) = partial_json_at idx xs @ partial_json_at idx ys"
  by (induction idx xs rule: partial_json_at.induct) auto

lemma tool_frame_step:
  "\<exists>s' new. handleFrame (Parsed (tool_frame ix tid name a)) s = (Continue, s')
      \<and> sent s' = sent s @ new
      \<and> (\<forall>e\<in>set new. e = MessageStart \<or> e = Ping \<or> event_index e = Some (index_or_zero ix))
      \<and> partial_json_at (index_or_zero ix) new =
          (if length a > length (stored_at (index_or_zero ix) s)
           then [drop (length (stored_at (index_or_zero ix) s)) a] else [])
      \<and> stored_at (index_or_zero ix) s' =
          (if length a > length (stored_at (index_or_zero ix) s)
           then a else stored_at (index_or_zero ix) s)"
  by (cases "map_of (toolCallAccumulators s) (index_or_zero ix)")
     (auto simp: handleFrame_def tool_frame_def handleDelta_def first_delta_def toolCallDelta_def
        Let_def sendSuccessMessage_def sendSSE_def stored_at_def or_empty_def
        AList.update_conv' partial_json_at_append map_add_def)

lemma tool_lines_run:
  "\<exists>s' new. handleLines (tool_lines ix calls) s = (Continue, s')
      \<and> sent s' = sent s @ new
      \<and> (\<forall>e\<in>set new. e = MessageStart \<or> e = Ping \<or> event_index e = Some (index_or_zero ix))
      \<and> partial_json_at (index_or_zero ix) new =
          expected_fragments (stored_at (index_or_zero ix) s) (map (snd \<circ> snd) calls)"
proof (induction calls arbitrary: s)
  case Nil
  then show ?case by (simp add: tool_lines_def)
next
  case (Cons call calls)
  obtain tid name a where call: "call = (tid, name, a)" by (cases call)
  from tool_frame_step [of ix tid name a s] obtain s1 new1
    where 1: "handleFrame (Parsed (tool_frame ix tid name a)) s = (Continue, s1)"
      "sent s1 = sent s @ new1"
      "partial_json_at (index_or_zero ix) new1 =
          (if length a > length (stored_at (index_or_zero ix) s)
           then [drop (length (stored_at (index_or_zero ix) s)) a] else [])"
      "stored_at (index_or_zero ix) s1 =
          (if length a > length (stored_at (index_or_zero ix) s)
           then a else stored_at (index_or_zero ix) s)"
      and e1: "\<forall>e\<in>set new1. e = MessageStart \<or> e = Ping \<or> event_index e = Some (index_or_zero ix)"
    by blast
  from Cons.IH [of s1] obtain s2 new2
    where 2: "handleLines (tool_lines ix calls) s1 = (Continue, s2)"
      "sent s2 = sent s1 @ new2"
      "partial_json_at (index_or_zero ix) new2 =
          expected_fragments (stored_at (index_or_zero ix) s1) (map (snd \<circ> snd) calls)"
      and e2: "\<forall>e\<in>set new2. e = MessageStart \<or> e = Ping \<or> event_index e = Some (index_or_zero ix)"
    by blast
  have "handleLines (tool_lines ix (call # calls)) s = (Continue, s2)"
    using 1(1) 2(1) by (simp add: tool_lines_def call handleLine_def)
  moreover have "sent s2 = sent s @ (new1 @ new2)"
    using 1(2) 2(2) by simp
  moreover have "\<forall>e\<in>set (new1 @ new2).
      e = MessageStart \<or> e = Ping \<or> event_index e = Some (index_or_zero ix)"
    using e1 e2 by auto
  moreover have "partial_json_at (index_or_zero ix) (new1 @ new2) =
      expected_fragments (stored_at (index_or_zero ix) s) (map (snd \<circ> snd) (call # calls))"
    using 1(3,4) 2(3) by (simp add: partial_json_at_append call)
  ultimately show ?case by blast
qed

lemma cumulative_prefix_last: "cumulative (a # as) \<Longrightarrow> prefix a (last (a # as))"
proof (induction as arbitrary: a)
  case Nil
  then show ?case by simp
next
  case (Cons b bs)
  then have "prefix a b" "prefix b (last (b # bs))" by simp_all
  then show ?case by (auto intro: prefix_order.trans)
qed

lemma fragments_concat:
  "cumulative (stored # as) \<Longrightarrow> stored @ concat (expected_fragments stored as) = last (stored # as)"
proof (induction as arbitrary: stored)
  case Nil
  then show ?case by simp
next
  case (Cons a as)
  then have p: "prefix stored a" and c: "cumulative (a # as)" by simp_all
  show ?case
  proof (cases "length a > length stored")
    case True
    from p obtain t where "a = stored @ t" by (auto simp: prefix_def)
    with True Cons.IH [OF c] show ?thesis by simp
  next
    case False
    with p have "a = stored"
      by (auto simp: prefix_def)
    with False Cons.IH [of stored] c show ?thesis by simp
  qed
qed

subsection \<open>The index of a tool call\<close>

lemma falsy_index_zero: "falsy_index ix \<Longrightarrow> index_or_zero ix = 0"
  by (cases ix) simp_all

lemma toolCallDelta_index:
  assumes "index_or_zero (tc_index tc) = index_or_zero ix"
  shows "toolCallDelta (tc\<lparr> tc_index := ix \<rparr>) s = toolCallDelta tc s"
  using assms [symmetric] by (cases "tc_function tc") (simp_all add: toolCallDelta_def Let_def)

lemma toolCallsLoop_zero:
  "\<forall>tc\<in>set tcs. falsy_index (tc_index tc) \<Longrightarrow>
     toolCallsLoop (map (\<lambda>tc. tc\<lparr> tc_index := IndexNumber 0 \<rparr>) tcs) s = toolCallsLoop tcs s"
  by (induction tcs arbitrary: s)
     (simp_all add: toolCallDelta_index falsy_index_zero split: prod.splits signal.splits)

lemma toolCallDelta_at_zero:
  assumes "index_or_zero (tc_index tc) = 0"
  shows "\<exists>new. sent (snd (toolCallDelta tc s)) = sent s @ new
      \<and> (\<forall>e\<in>set new. event_index e = Some 0)
      \<and> length (filter is_block_start new) \<le> (if 0 \<in> fst ` set (toolCallAccumulators s) then 0 else 1)
      \<and> fst ` set (toolCallAccumulators (snd (toolCallDelta tc s))) = insert 0 (fst ` set (toolCallAccumulators s))"
proof (cases "map_of (toolCallAccumulators s) 0")
  case None
  then have "0 \<notin> fst ` set (toolCallAccumulators s)" by (simp add: map_of_None_keys)
  with None assms show ?thesis
    by (simp add: toolCallDelta_def Let_def sendSSE_def keys_update map_add_def
        split: option.splits)
next
  case (Some old)
  then have k: "0 \<in> fst ` set (toolCallAccumulators s)" by (force dest: map_of_SomeD)
  then have k': "insert 0 (fst ` set (toolCallAccumulators s)) = fst ` set (toolCallAccumulators s)"
    by (rule insert_absorb)
  from Some assms show ?thesis
    by (simp add: toolCallDelta_def Let_def sendSSE_def keys_update k k' split: option.splits)
qed

lemma toolCallsLoop_at_zero:
  assumes "\<forall>tc\<in>set tcs. falsy_index (tc_index tc)"
  shows "\<exists>new. sent (snd (toolCallsLoop tcs s)) = sent s @ new
      \<and> (\<forall>e\<in>set new. event_index e = Some 0)
      \<and> length (filter is_block_start new) \<le> (if 0 \<in> fst ` set (toolCallAccumulators s) then 0 else 1)
      \<and> fst ` set (toolCallAccumulators (snd (toolCallsLoop tcs s)))
          = (if tcs = [] then fst ` set (toolCallAccumulators s)
             else insert 0 (fst ` set (toolCallAccumulators s)))"
  using assms
proof (induction tcs arbitrary: s)
  case Nil
  then show ?case by simp
next
  case (Cons tc tcs)
  then have z: "index_or_zero (tc_index tc) = 0" by (simp add: falsy_index_zero)
  obtain sig s1 where step: "toolCallDelta tc s = (sig, s1)" by (cases "toolCallDelta tc s")
  from toolCallDelta_at_zero [OF z, of s] step obtain new1
    where 1: "sent s1 = sent s @ new1" "\<forall>e\<in>set new1. event_index e = Some 0"
      "length (filter is_block_start new1) \<le> (if 0 \<in> fst ` set (toolCallAccumulators s) then 0 else 1)"
      "fst ` set (toolCallAccumulators s1) = insert 0 (fst ` set (toolCallAccumulators s))"
    by auto
  show ?case
  proof (cases sig)
    case Continue
    from Cons.IH [of s1] Cons.prems obtain new2
      where 2: "sent (snd (toolCallsLoop tcs s1)) = sent s1 @ new2"
        "\<forall>e\<in>set new2. event_index e = Some 0"
        "length (filter is_block_start new2) \<le> (if 0 \<in> fst ` set (toolCallAccumulators s1) then 0 else 1)"
        "fst ` set (toolCallAccumulators (snd (toolCallsLoop tcs s1)))
          = (if tcs = [] then fst ` set (toolCallAccumulators s1)
             else insert 0 (fst ` set (toolCallAccumulators s1)))"
      by auto
    have "sent (snd (toolCallsLoop (tc # tcs) s)) = sent s @ (new1 @ new2)"
      using step Continue 1(1) 2(1) by simp
    moreover have "\<forall>e\<in>set (new1 @ new2). event_index e = Some 0"
      using 1(2) 2(2) by auto
    moreover have "length (filter is_block_start (new1 @ new2))
        \<le> (if 0 \<in> fst ` set (toolCallAccumulators s) then 0 else 1)"
      using 1(3,4) 2(3) by (auto split: if_splits)
    moreover have "fst ` set (toolCallAccumulators (snd (toolCallsLoop (tc # tcs) s)))
        = insert 0 (fst ` set (toolCallAccumulators s))"
      using step Continue 1(4) 2(4) by (auto split: if_splits)
    ultimately show ?thesis by (intro exI [of _ "new1 @ new2"]) simp
  next
    case Returned
    with step toolCallDelta_not_Returned [of tc s] show ?thesis by simp
  next
    case (Thrown f)
    with step 1 show ?thesis by (intro exI [of _ new1]) simp
  qed
qed

subsection \<open>The definitions on small inputs\<close>

text \<open>
  A no-break space before \<open>data:\<close> is trimmed away as any white space is: the line is
  the sentinel, and the loop returns on it.
\<close>

lemma classify_no_break_space:
  "classify parse (CHR 0xA0 # ''data: [DONE]'') = Sentinel"
  "classify parse (''data:'' @ [CHR 0xA0] @ ''[DONE]'' @ [CHR 0x0D]) = Sentinel"
  by (simp_all add: classify_def dataStr_def trim_def is_space_def)

lemma readLoop_no_break_space:
  "fst (readLoop demo_parse [hi_line @ ''\<newline>'' @ CHR 0xA0 # done_line] streamingState) = Returned"
  by (simp add: stream_eval)

text \<open>
  The keys of the accumulators are enumerated with the array indices first, in
  ascending order, and the other keys behind them in the order of their creation.
\<close>

lemma accumulator_keys_order:
  "accumulator_keys [(4294967296, a), (4294967295, b), (7, c), (3, d)]
     = [3, 7, 4294967296, 4294967295]"
  by (simp add: accumulator_keys_def)

text \<open>
  An index is started once: a second start is a violation of the order, whether the
  block is still open or was stopped; so is a block that is never stopped.
\<close>

lemma block_order_violations:
  "\<not> block_order [ContentBlockStart 0 TextBlock, ContentBlockStart 0 (ToolUseBlock tid name),
       ContentBlockStop 0]"
  "\<not> block_order [ContentBlockStart 0 TextBlock, ContentBlockStop 0,
       ContentBlockStart 0 TextBlock, ContentBlockStop 0]"
  "\<not> block_order [ContentBlockStart 0 TextBlock, ContentBlockDelta 0 (TextDelta text)]"
  "block_order [ContentBlockStart 0 TextBlock, ContentBlockDelta 0 (TextDelta text),
       ContentBlockStop 0]"
  by (simp_all add: block_order_def)

section \<open>Properties of the SchemaSanitizer\<close>

text \<open>
  Claim C5 (idempotence, and removal of \<open>format: 'uri'\<close> at every depth). The code
  returns a matching object without visiting its members, so a matching object nested
  in another matching object keeps its \<open>format\<close> after one pass and loses it in the
  second: on the schema \<open>{type: 'string', format: 'uri', items: {type: 'string',
  format: 'uri'}}\<close> one pass leaves the inner \<open>format: 'uri'\<close> in place, and a second
  pass gives a different result.
\<close>

theorem removeUriFormat_skips_nested_match:
  "removeUriFormat (JObj [(''type'', JStr ''string''), (''format'', JStr ''uri''),
       (''items'', JObj [(''type'', JStr ''string''), (''format'', JStr ''uri'')])])
     = JObj [(''type'', JStr ''string''),
         (''items'', JObj [(''type'', JStr ''string''), (''format'', JStr ''uri'')])]
   \<and> removeUriFormat (removeUriFormat (JObj [(''type'', JStr ''string''), (''format'', JStr ''uri''),
       (''items'', JObj [(''type'', JStr ''string''), (''format'', JStr ''uri'')])]))
     = JObj [(''type'', JStr ''string''), (''items'', JObj [(''type'', JStr ''string'')])]"
  by (simp add: typeof_object_def)

section \<open>Properties of the RequestTranslator\<close>

text \<open>
  Claim C9, as stated, at the empty text: a single user message whose content is the
  empty string is not forwarded at all, since a message is pushed only with a truthy
  content or with tool calls.
\<close>

theorem empty_user_text_is_dropped:
  "map_sum id oq_messages
     (translateRequest demo_config (\<lambda>v. []) (user_text_request [])) = Inr []
   \<and> map_sum id oq_messages
     (translateRequest demo_config (\<lambda>v. []) (user_text_request []))
       \<noteq> Inr [\<lparr> om_role = ''user'', om_content = Some (JStr []),
                 om_tool_calls = None, om_tool_call_id = None \<rparr>]"
  by (simp add: translateRequest_def user_text_request_def translateMessage_def
      normalizeContent_def translateTools_def demo_config_def)

text \<open>
  Claim C9, amended: a request with a single user message whose content is a non-empty
  string, no system entries and no tools translates to a request whose only message is
  that text with role \<open>user\<close>, and which carries no tools.
\<close>

theorem single_user_text_message:
  assumes "ar_messages payload = [\<lparr> am_role = ''user'', am_content = JStr t \<rparr>]"
    and "t \<noteq> []"
    and "no_system_entries payload"
    and "no_tools payload"
  shows "\<exists>q. translateRequest config str payload = Inr q
           \<and> oq_messages q = [\<lparr> om_role = ''user'', om_content = Some (JStr t),
                 om_tool_calls = None, om_tool_call_id = None \<rparr>]
           \<and> oq_tools q = None"
proof -
  have sys: "(case ar_system payload of Some (JArr entries) \<Rightarrow> entries | _ \<Rightarrow> []) = []"
    using assms(3) by (auto simp: no_system_entries_def split: option.splits json.splits)
  have tools: "translateTools config (ar_tools payload) = []"
    using assms(4) by (auto simp: no_tools_def translateTools_def split: option.splits)
  have msg: "translateMessage str \<lparr> am_role = ''user'', am_content = JStr t \<rparr>
      = Inr [\<lparr> om_role = ''user'', om_content = Some (JStr t),
                 om_tool_calls = None, om_tool_call_id = None \<rparr>]"
    using assms(2) by (simp add: translateMessage_def normalizeContent_def)
  show ?thesis
    unfolding translateRequest_def sys tools assms(1) by (simp add: msg)
qed

theorem single_user_text_message_witness:
  "\<exists>q. translateRequest demo_config (\<lambda>v. []) (user_text_request ''Hello'') = Inr q
           \<and> oq_messages q = [\<lparr> om_role = ''user'', om_content = Some (JStr ''Hello''),
                 om_tool_calls = None, om_tool_call_id = None \<rparr>]
           \<and> oq_tools q = None"
  using single_user_text_message [of "user_text_request ''Hello''" "''Hello''" demo_config "\<lambda>v. []"]
  by (simp add: user_text_request_def no_system_entries_def no_tools_def)

section \<open>Properties of the ProxyOrchestrator\<close>

text \<open>
  Claim C6, as stated, on a backend that answers 404 with the body \<open>not found\<close>:
  the status is passed on, but the payload returned is the object
  \<open>{ error: 'not found' }\<close>, not the body itself.
\<close>

theorem backend_failure_is_wrapped:
  "code (handler demo_config failing_backend (user_text_request ''Hello'')) = Some 404
   \<and> returned (handler demo_config failing_backend (user_text_request ''Hello''))
       = Some (Json (JObj [(''error'', JStr ''not found'')]))
   \<and> returned (handler demo_config failing_backend (user_text_request ''Hello''))
       \<noteq> Some (Json (JStr ''not found''))"
  by (simp add: handler_def translateRequest_def user_text_request_def translateMessage_def
      normalizeContent_def translateTools_def demo_config_def failing_backend_def ok_def
      body_text_def)

text \<open>
  Claim C6, amended: when the request translates and the backend's response is not ok
  (its status lies outside 200 to 299), the handler sets the backend's status as the
  reply's code and returns an object whose only member \<open>error\<close> is the text of the
  backend's body, untranslated; nothing is written to the raw channel.
\<close>

theorem backend_failure_passthrough:
  assumes "translateRequest config (ex_stringify ext) payload = Inr q"
    and "ex_fetch ext q = Some response"
    and "\<not> ok response"
  shows "handler config ext payload =
     \<lparr> code = Some (status response),
       returned = Some (Json (JObj [(''error'', JStr (body_text response))])),
       raw = streamingState \<rparr>"
  using assms by (simp add: handler_def)

theorem backend_failure_passthrough_witness:
  "handler demo_config failing_backend (user_text_request ''Hello'') =
     \<lparr> code = Some 404,
       returned = Some (Json (JObj [(''error'', JStr ''not found'')])),
       raw = streamingState \<rparr>"
proof -
  let ?q = "\<lparr> oq_model = ''completer'',
     oq_messages = [\<lparr> om_role = ''user'', om_content = Some (JStr ''Hello''),
        om_tool_calls = None, om_tool_call_id = None \<rparr>],
     oq_max_tokens = None, oq_temperature = JNum 1, oq_stream = False, oq_tools = None \<rparr>"
  let ?r = "\<lparr> status = 404, body = Some [''not found''] \<rparr>"
  have 1: "translateRequest demo_config (ex_stringify failing_backend) (user_text_request ''Hello'') = Inr ?q"
    by (simp add: translateRequest_def user_text_request_def translateMessage_def
      normalizeContent_def translateTools_def demo_config_def)
  have 2: "ex_fetch failing_backend ?q = Some ?r"
    by (simp add: failing_backend_def)
  have 3: "\<not> ok ?r"
    by (simp add: ok_def)
  show ?thesis
    using backend_failure_passthrough [OF 1 2 3] by (simp add: body_text_def)
qed

section \<open>Properties of the NonStreamResponseTranslator\<close>

text \<open>
  Claim C8, as stated, on texts with two spaces in a row and no usage from the backend:
  the outbound message \<open>Hello  world\<close> and the response text \<open>a  b\<close> have
  two whitespace-separated words each, and the reply reports three input and three
  output tokens.
\<close>

theorem estimate_counts_pieces_not_words:
  "map_sum id as_usage (translateResponse (\<lambda>t. None) ''msg_0'' two_space_request two_space_response)
     = Inr \<lparr> input_tokens = 3, output_tokens = 3 \<rparr>
   \<and> word_count ''Hello  world'' = 2 \<and> word_count ''a  b'' = 2
   \<and> map_sum id as_usage (translateResponse (\<lambda>t. None) ''msg_0'' two_space_request two_space_response)
       \<noteq> Inr \<lparr> input_tokens = int (word_count ''Hello  world''),
                 output_tokens = int (word_count ''a  b'') \<rparr>"
  by (simp add: translateResponse_def two_space_request_def two_space_response_def
      contentPieces_def outputEstimate_def word_count_def is_space_def mapStopReason_def
      truthy_string_def or_empty_def)

text \<open>
  Claim C8, amended. Take a response without error field whose first choice has a
  message and whose tool-call arguments parse. If the backend supplied usage counts,
  the translator succeeds and uses them verbatim. Otherwise, if the content of every
  outbound message is a string, \<open>null\<close> or missing, the translator succeeds; the
  input tokens are the sum over the outbound messages of the number of pieces between
  single spaces of a string content (one more than its spaces; nothing for a message
  without), and the output tokens the number of such pieces of the response text
  (nothing when the text is missing). Otherwise, some outbound content being another
  value (such as the array of a \<open>tool_result\<close> block, which the request translator
  forwards as it is), the estimate throws a type error and no response is produced.
\<close>

theorem usage_of_translated_response:
  assumes "r_error data = None"
    and "r_choices data = Some (choice # others)"
    and "ch_message choice = Some m"
    and "collect (map (toolUseBlock pj) (case m_tool_calls m of Some tcs \<Rightarrow> tcs | None \<Rightarrow> [])) = Inr blocks"
  shows "case r_usage data of
           Some u \<Rightarrow>
             (\<exists>r. translateResponse pj fid q data = Inr r
                \<and> as_usage r = \<lparr> input_tokens = prompt_tokens u,
                                  output_tokens = completion_tokens u \<rparr>)
         | None \<Rightarrow>
             if list_all (\<lambda>msg. splittable (om_content msg)) (oq_messages q)
             then (\<exists>r. translateResponse pj fid q data = Inr r
                \<and> as_usage r =
                    \<lparr> input_tokens = int (sum_list (map (\<lambda>msg. pieces_of_content (om_content msg))
                                             (oq_messages q))),
                      output_tokens = int (case m_content m of
                                             Some s \<Rightarrow> count_list s CHR '' '' + 1
                                           | None \<Rightarrow> 0) \<rparr>)
             else translateResponse pj fid q data = Inl TypeError"
proof (cases "r_usage data")
  case (Some u)
  with assms show ?thesis
    by (simp add: translateResponse_def)
next
  case None
  show ?thesis
  proof (cases "list_all (\<lambda>msg. splittable (om_content msg)) (oq_messages q)")
    case True
    then have "inputEstimate (oq_messages q) 0
        = Inr (sum_list (map (\<lambda>msg. pieces_of_content (om_content msg)) (oq_messages q)))"
      by (simp add: inputEstimate_sum list_all_iff)
    with None True assms show ?thesis
      by (simp add: translateResponse_def outputEstimate_def length_split split: option.splits)
  next
    case False
    then have "inputEstimate (oq_messages q) 0 = Inl TypeError"
      by (rule inputEstimate_throws)
    with None False assms show ?thesis
      by (simp add: translateResponse_def)
  qed
qed

theorem usage_of_translated_response_witness:
  "(\<exists>r. translateResponse (\<lambda>t. None) ''msg_0'' two_space_request two_space_response = Inr r
       \<and> as_usage r = \<lparr> input_tokens = 3, output_tokens = 3 \<rparr>)
   \<and> translateResponse (\<lambda>t. None) ''msg_0'' array_content_request two_space_response
       = Inl TypeError"
proof -
  let ?m = "\<lparr> m_content = Some ''a  b'', m_tool_calls = None \<rparr>"
  let ?c = "\<lparr> ch_message = Some ?m, ch_delta = None, ch_finish_reason = Some ''stop'' \<rparr>"
  have 1: "r_error two_space_response = None"
    and 2: "r_choices two_space_response = Some (?c # [])"
    and 3: "ch_message ?c = Some ?m"
    and 4: "collect (map (toolUseBlock (\<lambda>t. None)) (case m_tool_calls ?m of Some tcs \<Rightarrow> tcs | None \<Rightarrow> [])) = Inr []"
    by (simp_all add: two_space_response_def)
  have u: "r_usage two_space_response = None"
    by (simp add: two_space_response_def)
  from usage_of_translated_response [where fid = "''msg_0''" and q = two_space_request, OF 1 2 3 4]
  have a: "\<exists>r. translateResponse (\<lambda>t. None) ''msg_0'' two_space_request two_space_response = Inr r
       \<and> as_usage r = \<lparr> input_tokens = 3, output_tokens = 3 \<rparr>"
    unfolding u by (simp add: two_space_request_def splittable_def pieces_of_content_def)
  from usage_of_translated_response [where fid = "''msg_0''" and q = array_content_request, OF 1 2 3 4]
  have b: "translateResponse (\<lambda>t. None) ''msg_0'' array_content_request two_space_response
       = Inl TypeError"
    unfolding u by (simp add: array_content_request_def splittable_def)
  from a b show ?thesis by (rule conjI)
qed

section \<open>Properties of the StreamingReencoder\<close>







text \<open>
  Claim C4, as stated, on a frame that carries a role only: the line parses, its delta
  has no content, no reasoning and no tool call, and the stream is opened all the same,
  with \<open>message_start\<close> and the ping.
\<close>

theorem structural_frame_opens_stream:
  "classify demo_parse role_line = Payload (Parsed structural_frame)
   \<and> first_delta (case r_choices structural_frame of Some choices \<Rightarrow> choices | None \<Rightarrow> [])
       = Some \<lparr> d_tool_calls = None, d_content = None, d_reasoning = None \<rparr>
   \<and> streamResponse demo_parse [role_line] =
       (Returned, streamingState \<lparr> isSucceeded := True, sent := [MessageStart, Ping],
                                   ended := True \<rparr>)"
  by (simp add: stream_eval)

text \<open>
  Claim C4, amended. While nothing was sent, a line sends \<open>message_start\<close> followed
  by one ping exactly when it is a data line other than the sentinel whose text parses
  to a frame without error field, whether or not the frame carries content, reasoning or
  a tool call; a line that does not parse, that parses to \<open>null\<close> or to a frame with
  an error field never does. On every body, once the stream is opened the output starts
  with the only \<open>message_start\<close> and the ping; and when the loop is left without the
  stream opened and not by the sentinel, nothing was sent and the channel is not ended.
  A failure thrown before the stream is opened gives the reply of the \<open>catch\<close>:
  code 500, the error object, and nothing on the raw channel.
\<close>

theorem stream_opening:
  "(sent s0 = [] \<and> \<not> isSucceeded s0 \<longrightarrow>
      (take 2 (sent (snd (handleLine k s0))) = [MessageStart, Ping]
        \<longleftrightarrow> (\<exists>frame. k = Payload (Parsed frame) \<and> r_error frame = None)))
   \<and> (readLoop parse chunks streamingState = (sig, s) \<longrightarrow>
        (isSucceeded s \<longrightarrow> (\<exists>rest. sent s = MessageStart # Ping # rest \<and> MessageStart \<notin> set rest))
      \<and> (\<not> isSucceeded s \<and> sig \<noteq> Returned \<longrightarrow> sent s = [] \<and> \<not> ended s))
   \<and> (translateRequest config (ex_stringify ext) payload = Inr q \<and> oq_stream q
        \<and> ex_fetch ext q = Some response \<and> ok response \<and> body response = Some chunks'
        \<and> streamResponse (ex_parse_response ext) chunks' = (Thrown f, s') \<and> \<not> isSucceeded s'
      \<longrightarrow> handler config ext payload = \<lparr> code = Some 500, returned = Some (ErrorOf f), raw = s' \<rparr>
          \<and> sent s' = [] \<and> \<not> ended s')"
proof (intro conjI impI)
  assume "sent s0 = [] \<and> \<not> isSucceeded s0"
  then show "take 2 (sent (snd (handleLine k s0))) = [MessageStart, Ping]
        \<longleftrightarrow> (\<exists>frame. k = Payload (Parsed frame) \<and> r_error frame = None)"
    by (simp add: opening_line)
next
  assume "readLoop parse chunks streamingState = (sig, s)" and "isSucceeded s"
  then show "\<exists>rest. sent s = MessageStart # Ping # rest \<and> MessageStart \<notin> set rest"
    using reached_framed by blast
next
  assume "readLoop parse chunks streamingState = (sig, s)" and "\<not> isSucceeded s \<and> sig \<noteq> Returned"
  then show "sent s = []" "\<not> ended s"
    using reached_framed by blast+
next
  assume a: "translateRequest config (ex_stringify ext) payload = Inr q \<and> oq_stream q
        \<and> ex_fetch ext q = Some response \<and> ok response \<and> body response = Some chunks'
        \<and> streamResponse (ex_parse_response ext) chunks' = (Thrown f, s') \<and> \<not> isSucceeded s'"
  then show "handler config ext payload = \<lparr> code = Some 500, returned = Some (ErrorOf f), raw = s' \<rparr>"
    by (simp add: handler_def caught_def)
  from a have "readLoop (ex_parse_response ext) chunks' streamingState = (Thrown f, s')"
    by (simp add: streamResponse_Thrown)
  with a reached_framed [of "ex_parse_response ext" chunks' "Thrown f" s']
  show "sent s' = []" "\<not> ended s'" by simp_all
qed

theorem stream_opening_witness:
  "take 2 (sent (snd (handleLine (Payload (Parsed structural_frame)) streamingState)))
      = [MessageStart, Ping]
   \<and> sent (snd (readLoop demo_parse [role_line] streamingState)) = [MessageStart, Ping]
   \<and> handler demo_config (streaming_backend [''data: oops'']) streaming_request =
       \<lparr> code = Some 500, returned = Some (ErrorOf SyntaxError), raw = streamingState \<rparr>"
proof -
  let ?q = "\<lparr> oq_model = ''completer'',
       oq_messages = [\<lparr> om_role = ''user'', om_content = Some (JStr ''Hello''),
          om_tool_calls = None, om_tool_call_id = None \<rparr>],
       oq_max_tokens = None, oq_temperature = JNum 1, oq_stream = True, oq_tools = None \<rparr>"
  have throw: "streamResponse (ex_parse_response (streaming_backend [''data: oops''])) [''data: oops'']
      = (Thrown SyntaxError, streamingState)"
    by (simp add: streaming_backend_def stream_eval)
  have fetch: "ex_fetch (streaming_backend [''data: oops'']) ?q
      = Some \<lparr> status = 200, body = Some [''data: oops''] \<rparr>"
    by (simp add: streaming_backend_def)
  have frame: "r_error structural_frame = None"
    by (simp add: structural_frame_def)
  show ?thesis
    using stream_opening [of streamingState "Payload (Parsed structural_frame)"
        demo_parse "[role_line]" Continue
        "streamingState \<lparr> isSucceeded := True, sent := [MessageStart, Ping] \<rparr>"
        demo_config "streaming_backend [''data: oops'']" streaming_request ?q
        "\<lparr> status = 200, body = Some [''data: oops''] \<rparr>" "[''data: oops'']"
        SyntaxError streamingState]
      streaming_request_translated [of "[''data: oops'']"] throw fetch frame role_line_run
    by (simp add: streamingState_def ok_def)
qed

text \<open>
  Claim C7, as stated, on a body of one text delta that ends without the sentinel: the
  handler ends the channel and returns without a code and without a value, as it does
  after the sentinel; no failure is raised and nothing tells the client of an abort.
\<close>

theorem eof_is_a_normal_end:
  "Sentinel \<notin> set (body_lines demo_parse hi_then_eof)
   \<and> handler demo_config (streaming_backend hi_then_eof) streaming_request =
       \<lparr> code = None, returned = None,
         raw = \<lparr> isSucceeded = True, accumulatedContent = ''Hi'', accumulatedReasoning = [],
           usage = None, textBlockStarted = True, encounteredToolCall = False,
           toolCallAccumulators = [],
           sent = [MessageStart, Ping, ContentBlockStart 0 TextBlock,
                   ContentBlockDelta 0 (TextDelta ''Hi'')],
           ended = True \<rparr> \<rparr>"
proof -
  have "Sentinel \<notin> set (body_lines demo_parse hi_then_eof)"
    by (simp add: body_lines_def hi_then_eof_def stream_eval)
  moreover have "streamResponse demo_parse hi_then_eof =
     (Returned, \<lparr> isSucceeded = True, accumulatedContent = ''Hi'', accumulatedReasoning = [],
           usage = None, textBlockStarted = True, encounteredToolCall = False,
           toolCallAccumulators = [],
           sent = [MessageStart, Ping, ContentBlockStart 0 TextBlock,
                   ContentBlockDelta 0 (TextDelta ''Hi'')],
           ended = True \<rparr>)"
    unfolding streamResponse_def hi_then_eof_run by simp
  ultimately show ?thesis
    using streaming_request_translated [of hi_then_eof]
    by (simp add: handler_def streaming_backend_def ok_def)
qed

text \<open>
  Claim C7, amended: on a streaming request no line of whose body is the sentinel (once
  trimmed and freed of its \<open>data:\<close> prefix and the white space after it), either
  a frame throws (a text that does not parse, an error field, a missing field) and the
  reply is the one of the \<open>catch\<close>, with code 500; or the end of the body is
  reached, and then the handler ends the channel and returns normally, with no code set
  and nothing returned, having sent no \<open>content_block_stop\<close>, no
  \<open>message_delta\<close> and no \<open>message_stop\<close>.
\<close>

theorem eof_without_sentinel:
  assumes "translateRequest config (ex_stringify ext) payload = Inr q"
    and "oq_stream q"
    and "ex_fetch ext q = Some response"
    and "ok response"
    and "body response = Some chunks"
    and "Sentinel \<notin> set (body_lines (ex_parse_response ext) chunks)"
  shows "(\<exists>f s. readLoop (ex_parse_response ext) chunks streamingState = (Thrown f, s)
            \<and> handler config ext payload = \<lparr> code = Some 500, returned = Some (ErrorOf f), raw = s \<rparr>)
       \<or> (\<exists>s. readLoop (ex_parse_response ext) chunks streamingState = (Continue, s)
            \<and> handler config ext payload =
                 \<lparr> code = None, returned = None, raw = s\<lparr> ended := True \<rparr> \<rparr>
            \<and> (\<forall>e\<in>set (sent s). \<not> closing e))"
proof -
  obtain sig s where run: "readLoop (ex_parse_response ext) chunks streamingState = (sig, s)"
    by (cases "readLoop (ex_parse_response ext) chunks streamingState")
  note no = assms(6)
  show ?thesis
  proof (cases sig)
    case Continue
    with run reached_framed [OF run] assms(1-5) show ?thesis
      by (simp add: handler_def streamResponse_def)
  next
    case Returned
    with run reached [of "ex_parse_response ext" chunks] no show ?thesis by simp
  next
    case (Thrown f)
    with run assms(1-5) show ?thesis
      by (simp add: handler_def streamResponse_def caught_def)
  qed
qed

theorem eof_without_sentinel_witness:
  "\<exists>s. readLoop demo_parse hi_then_eof streamingState = (Continue, s)
      \<and> handler demo_config (streaming_backend hi_then_eof) streaming_request =
           \<lparr> code = None, returned = None, raw = s\<lparr> ended := True \<rparr> \<rparr>
      \<and> sent s = [MessageStart, Ping, ContentBlockStart 0 TextBlock,
                   ContentBlockDelta 0 (TextDelta ''Hi'')]"
proof -
  let ?q = "\<lparr> oq_model = ''completer'',
       oq_messages = [\<lparr> om_role = ''user'', om_content = Some (JStr ''Hello''),
          om_tool_calls = None, om_tool_call_id = None \<rparr>],
       oq_max_tokens = None, oq_temperature = JNum 1, oq_stream = True, oq_tools = None \<rparr>"
  let ?r = "\<lparr> status = 200, body = Some hi_then_eof \<rparr>"
  have 1: "translateRequest demo_config (ex_stringify (streaming_backend hi_then_eof))
      streaming_request = Inr ?q"
    by (rule streaming_request_translated)
  have 2: "oq_stream ?q" by simp
  have 3: "ex_fetch (streaming_backend hi_then_eof) ?q = Some ?r"
    by (simp add: streaming_backend_def)
  have 4: "ok ?r" by (simp add: ok_def)
  have 5: "body ?r = Some hi_then_eof" by simp
  have 6: "Sentinel \<notin> set (body_lines (ex_parse_response (streaming_backend hi_then_eof))
      hi_then_eof)"
    by (simp add: body_lines_def streaming_backend_def hi_then_eof_def stream_eval)
  have p: "ex_parse_response (streaming_backend hi_then_eof) = demo_parse"
    by (simp add: streaming_backend_def)
  show ?thesis
    using eof_without_sentinel [OF 1 2 3 4 5 6]
    unfolding p hi_then_eof_run by simp
qed

text \<open>
  Claim C3. A run of frames that each carry one tool-call delta with the same index
  \<open>n\<close> is processed to its end, and every block event it sends is for the index
  \<open>n\<close>. The partial-JSON fragments sent for \<open>n\<close> are those of the specification:
  one for each argument string strictly longer than the value stored for \<open>n\<close>, namely
  its suffix beyond the stored length, and none for any other. When the strings are
  cumulative, each extending the one before from the stored value on, the stored value
  followed by the fragments sent is the last argument string; for an index not yet
  opened the stored value is empty, and the fragments alone concatenate to the last
  argument string.
\<close>

theorem tool_argument_fragments:
  "\<exists>s' new. handleLines (tool_lines (IndexNumber n) calls) s = (Continue, s')
      \<and> sent s' = sent s @ new
      \<and> (\<forall>e\<in>set new. e = MessageStart \<or> e = Ping \<or> event_index e = Some n)
      \<and> partial_json_at n new = expected_fragments (stored_at n s) (map (snd \<circ> snd) calls)
      \<and> (calls \<noteq> [] \<and> cumulative (stored_at n s # map (snd \<circ> snd) calls)
           \<longrightarrow> stored_at n s @ concat (partial_json_at n new) = snd (snd (last calls)))"
proof -
  from tool_lines_run [of "IndexNumber n" calls s] obtain s' new
    where run: "handleLines (tool_lines (IndexNumber n) calls) s = (Continue, s')"
      "sent s' = sent s @ new"
      "\<forall>e\<in>set new. e = MessageStart \<or> e = Ping \<or> event_index e = Some n"
      "partial_json_at n new = expected_fragments (stored_at n s) (map (snd \<circ> snd) calls)"
    by auto
  have "stored_at n s @ concat (partial_json_at n new) = snd (snd (last calls))"
    if "calls \<noteq> []" "cumulative (stored_at n s # map (snd \<circ> snd) calls)"
    using fragments_concat [OF that(2)] that(1) run(4) by (simp add: last_map)
  with run show ?thesis by blast
qed

theorem tool_argument_fragments_witness:
  \<open>\<exists>s' new. handleLines (tool_lines (IndexNumber 2) three_calls) streamingState = (Continue, s')
      \<and> sent s' = new
      \<and> (\<forall>e\<in>set new. e = MessageStart \<or> e = Ping \<or> event_index e = Some 2)
      \<and> partial_json_at 2 new = [''{'', ''"a":1'', ''}'']
      \<and> concat (partial_json_at 2 new) = ''{"a":1}''\<close>
  using tool_argument_fragments [of 2 three_calls streamingState]
  by (simp add: three_calls_def stored_at_def streamingState_def)

text \<open>
  Claim C10. A tool-call delta whose index field is absent, \<open>null\<close>, \<open>false\<close>,
  the empty string or the number 0 is given index 0, and is processed exactly as with an
  explicit index 0. Hence a list of such deltas, whatever their ids, sends events for
  index 0 only, opens the block at most once (not at all if the accumulator for 0
  exists), and adds no accumulator key other than 0.
\<close>

theorem falsy_index_shares_block_zero:
  assumes "\<forall>tc\<in>set tcs. falsy_index (tc_index tc)"
  shows "(\<forall>tc\<in>set tcs. index_or_zero (tc_index tc) = 0)
     \<and> toolCallsLoop tcs s = toolCallsLoop (map (\<lambda>tc. tc\<lparr> tc_index := IndexNumber 0 \<rparr>) tcs) s
     \<and> (\<exists>new. sent (snd (toolCallsLoop tcs s)) = sent s @ new
          \<and> (\<forall>e\<in>set new. event_index e = Some 0)
          \<and> length (filter is_block_start new)
              \<le> (if 0 \<in> fst ` set (toolCallAccumulators s) then 0 else 1))
     \<and> fst ` set (toolCallAccumulators (snd (toolCallsLoop tcs s)))
          = (if tcs = [] then fst ` set (toolCallAccumulators s)
             else insert 0 (fst ` set (toolCallAccumulators s)))"
proof -
  from assms have "\<forall>tc\<in>set tcs. index_or_zero (tc_index tc) = 0"
    by (simp add: falsy_index_zero)
  moreover from assms
  have "toolCallsLoop tcs s = toolCallsLoop (map (\<lambda>tc. tc\<lparr> tc_index := IndexNumber 0 \<rparr>) tcs) s"
    by (simp add: toolCallsLoop_zero)
  ultimately show ?thesis
    using toolCallsLoop_at_zero [OF assms, of s] by blast
qed

theorem falsy_index_shares_block_zero_witness:
  \<open>toolCallsLoop two_unindexed_calls streamingState =
     (Continue, streamingState \<lparr> encounteredToolCall := True,
        toolCallAccumulators := [(0, ''{"x":1}'')],
        sent := [ContentBlockStart 0 (ToolUseBlock (Some ''call_a'') (Some ''first'')),
                 ContentBlockDelta 0 (InputJsonDelta ''{}''),
                 ContentBlockDelta 0 (InputJsonDelta ''x":1}'')] \<rparr>)
   \<and> fst ` set (toolCallAccumulators (snd (toolCallsLoop two_unindexed_calls streamingState))) = {0}\<close>
proof -
  have f: "\<forall>tc\<in>set two_unindexed_calls. falsy_index (tc_index tc)"
    by (simp add: two_unindexed_calls_def)
  have run: \<open>toolCallsLoop two_unindexed_calls streamingState =
     (Continue, streamingState \<lparr> encounteredToolCall := True,
        toolCallAccumulators := [(0, ''{"x":1}'')],
        sent := [ContentBlockStart 0 (ToolUseBlock (Some ''call_a'') (Some ''first'')),
                 ContentBlockDelta 0 (InputJsonDelta ''{}''),
                 ContentBlockDelta 0 (InputJsonDelta ''x":1}'')] \<rparr>)\<close>
    by (simp add: two_unindexed_calls_def stream_eval)
  have ne: "two_unindexed_calls \<noteq> []"
    by (simp add: two_unindexed_calls_def)
  have empty: "toolCallAccumulators streamingState = []"
    by (simp add: streamingState_def)
  from falsy_index_shares_block_zero [OF f, of streamingState]
  have "fst ` set (toolCallAccumulators (snd (toolCallsLoop two_unindexed_calls streamingState)))
      = (if two_unindexed_calls = [] then fst ` set (toolCallAccumulators streamingState)
         else insert 0 (fst ` set (toolCallAccumulators streamingState)))"
    by (elim conjE)
  with ne empty
  have "fst ` set (toolCallAccumulators (snd (toolCallsLoop two_unindexed_calls streamingState))) = {0}"
    by simp
  with run show ?thesis by (intro conjI)
qed

end
